theory Spec2Isabelle
  imports Complex_Main "HOL-Library.AList" "HOL-Library.Sublist"
begin

section \<open>Python strings\<close>

text \<open>
  A Python \<open>str\<close> is a sequence of Unicode code points, so it is modelled as a list of
  natural numbers; \<open>len\<close>, slicing and \<open>strip\<close> then count what Python counts.
  \<open>str\<close> turns an ASCII literal into that representation; the non-ASCII literals of the
  source are written out as code points.
\<close>

type_synonym pystr = "nat list"

definition str :: "string \<Rightarrow> pystr" where
  "str cs = map of_char cs"

text \<open>The characters \<open>str.strip()\<close> removes: Python's Unicode whitespace.\<close>

definition is_space :: "nat \<Rightarrow> bool" where
  "is_space c \<longleftrightarrow>
     (0x09 \<le> c \<and> c \<le> 0x0D) \<or> (0x1C \<le> c \<and> c \<le> 0x20) \<or> c = 0x85 \<or> c = 0xA0 \<or>
     c = 0x1680 \<or> (0x2000 \<le> c \<and> c \<le> 0x200A) \<or> c = 0x2028 \<or> c = 0x2029 \<or>
     c = 0x202F \<or> c = 0x205F \<or> c = 0x3000"

definition strip_where :: "(nat \<Rightarrow> bool) \<Rightarrow> pystr \<Rightarrow> pystr" where
  "strip_where P s = rev (dropWhile P (rev (dropWhile P s)))"

definition strip :: "pystr \<Rightarrow> pystr" where
  "strip s = strip_where is_space s"

definition strip_chars :: "pystr \<Rightarrow> pystr \<Rightarrow> pystr" where
  "strip_chars cs s = strip_where (\<lambda>c. c \<in> set cs) s"

text \<open>\<open>s.split(sep)\<close> for a one-character separator: always at least one piece.\<close>

fun split_on :: "nat \<Rightarrow> pystr \<Rightarrow> pystr list" where
  "split_on sep [] = [[]]"
| "split_on sep (c # cs) =
     (if c = sep then [] # split_on sep cs
      else (case split_on sep cs of
              [] \<Rightarrow> [[c]]
            | p # ps \<Rightarrow> (c # p) # ps))"

text \<open>\<open>s.split(sep, 1)\<close>: one piece without the separator, two pieces with it.\<close>

definition split1 :: "nat \<Rightarrow> pystr \<Rightarrow> pystr list" where
  "split1 sep s =
     (if sep \<in> set s
      then [takeWhile (\<lambda>c. c \<noteq> sep) s, drop 1 (dropWhile (\<lambda>c. c \<noteq> sep) s)]
      else [s])"

definition startswith :: "pystr \<Rightarrow> pystr \<Rightarrow> bool" where
  "startswith s p = prefix p s"

text \<open>\<open>s.replace(old, new, 1)\<close> for a non-empty \<open>old\<close>: the first occurrence only.\<close>

fun replace_first :: "pystr \<Rightarrow> pystr \<Rightarrow> pystr \<Rightarrow> pystr" where
  "replace_first old new [] = []"
| "replace_first old new (c # cs) =
     (if prefix old (c # cs) then new @ drop (length old) (c # cs)
      else c # replace_first old new cs)"

text \<open>\<open>sep.join(parts)\<close>.\<close>

fun join :: "pystr \<Rightarrow> pystr list \<Rightarrow> pystr" where
  "join sep [] = []"
| "join sep [p] = p"
| "join sep (p # q # ps) = p @ sep @ join sep (q # ps)"

text \<open>
  The text before, and the text after, the first occurrence of a non-empty pattern;
  \<open>None\<close> when the pattern does not occur.
\<close>

fun before_first :: "pystr \<Rightarrow> pystr \<Rightarrow> pystr option" where
  "before_first pat [] = None"
| "before_first pat (c # cs) =
     (if prefix pat (c # cs) then Some []
      else map_option ((#) c) (before_first pat cs))"

fun after_first :: "pystr \<Rightarrow> pystr \<Rightarrow> pystr option" where
  "after_first pat [] = None"
| "after_first pat (c # cs) =
     (if prefix pat (c # cs) then Some (drop (length pat) (c # cs))
      else after_first pat cs)"

text \<open>
  \<open>re.search(r'<Loops>(.*?)</Loops>', text, re.DOTALL)\<close> and its group 1: the search
  is leftmost and the group is lazy, so the match starts at the first opening tag and
  the group ends at the first closing tag after it.
\<close>

definition loops_search :: "pystr \<Rightarrow> pystr option" where
  "loops_search text =
     (case after_first (str ''<Loops>'') text of
        None \<Rightarrow> None
      | Some rest \<Rightarrow> before_first (str ''</Loops>'') rest)"

section \<open>Dictionaries with string keys\<close>

text \<open>
  A Python \<open>dict\<close> keeps insertion order; it is an association list with distinct keys.
  \<open>d[k] = v\<close> is \<open>AList.update\<close>, \<open>del d[k]\<close> is \<open>AList.delete\<close>,
  \<open>d.get(k)\<close> is \<open>map_of\<close>.
\<close>

type_synonym params = "(pystr \<times> pystr) list"

text \<open>
  The exceptions that leave a function. \<open>BaseException\<close> stands for an exception that
  is not an \<open>Exception\<close>, such as \<open>asyncio.CancelledError\<close>: an
  \<open>except Exception\<close> clause does not catch it.
\<close>

datatype py_error = IndexError | ValueError | BaseException

section \<open>The AnLoop interpreter (core/anloop\_interpreter.py)\<close>

text \<open>
  The loop over \<open>enumerate(param_pairs)\<close> of \<open>_parse_tool_call\<close>. The unpacking
  \<open>key, value = pair.split('=', 1)\<close> raises \<open>ValueError\<close> unless the split has two
  pieces.
\<close>

fun parse_pairs :: "nat \<Rightarrow> pystr list \<Rightarrow> params \<Rightarrow> py_error + params" where
  "parse_pairs i [] ps = Inr ps"
| "parse_pairs i (pair # rest) ps =
     (if 0x3D \<in> set pair then
        (case split1 0x3D pair of
           [key, val] \<Rightarrow> parse_pairs (i + 1) rest (AList.update (strip key) (strip val) ps)
         | _ \<Rightarrow> Inl ValueError)
      else if i = 0 then
        parse_pairs (i + 1) rest (AList.update (str ''content'') (strip pair) ps)
      else parse_pairs (i + 1) rest ps)"

definition parse_tool_call :: "pystr \<Rightarrow> py_error + (pystr \<times> params)" where
  "parse_tool_call tool_str =
     (let parts = split1 0x3D (strip tool_str) in
      case parts of
        [] \<Rightarrow> Inl IndexError
      | p0 # more \<Rightarrow>
          let tool_name = drop 1 p0 in
          (case (case more of
                   [] \<Rightarrow> Inr []
                 | param_str # _ \<Rightarrow> parse_pairs 0 (split_on 0x3B param_str) []) of
             Inl e \<Rightarrow> Inl e
           | Inr ps \<Rightarrow>
               let ps1 = (if map_of ps (str ''content'') = Some [] then
                            AList.delete (str ''content'') ps
                          else ps);
                   ps2 = (case more of
                            [] \<Rightarrow> ps1
                          | param_str # _ \<Rightarrow>
                              if ps1 = [] then AList.update (str ''query'') param_str ps1
                              else ps1)
               in Inr (tool_name, ps2)))"

text \<open>
  The list comprehension of \<open>execute_anloop_sequence\<close>: the pieces between semicolons
  that are not blank and start with \<open>#\<close> (tested before stripping), each stripped.
\<close>

definition tool_calls_str :: "pystr \<Rightarrow> pystr list" where
  "tool_calls_str loop_content =
     map strip (filter (\<lambda>tc. strip tc \<noteq> [] \<and> startswith tc (str ''#''))
                       (split_on 0x3B loop_content))"

text \<open>
  The head of \<open>execute_anloop_sequence\<close> up to the dispatch loop: the block content,
  the no-response flag and the content left for splitting.
\<close>

definition loop_header :: "pystr \<Rightarrow> (pystr \<times> bool) option" where
  "loop_header anloop_string =
     (case loops_search anloop_string of
        None \<Rightarrow> None
      | Some g \<Rightarrow>
          let loop_content = strip g in
          if startswith loop_content (str ''#NotResp'')
          then Some (strip_chars (str ''; '')
                       (replace_first (str ''#NotResp'') [] loop_content), True)
          else Some (loop_content, False))"

section \<open>The tool executor (services/tool\_executor.py)\<close>

record ToolExecutionResult =
  success :: bool
  result :: "pystr option"
  error :: "pystr option"

text \<open>
  A tool method \<open>_execute_X(user_id, params)\<close> works on the services behind the
  executor, the world \<open>'w\<close>. Awaiting it returns a string, raises an \<open>Exception\<close>
  whose text is given, or raises an exception that is not an \<open>Exception\<close>.
\<close>

datatype tool_outcome = Returns pystr | Raises pystr | Raises_base

type_synonym 'w tool = "pystr \<Rightarrow> params \<Rightarrow> 'w \<Rightarrow> tool_outcome \<times> 'w"

text \<open>
  The executor object: \<open>getattr\<close> finds its \<open>_execute_...\<close> methods by name, and
  \<open>lower\<close> is Python's \<open>str.lower\<close>.
\<close>

record 'w ToolExecutor =
  lower :: "pystr \<Rightarrow> pystr"
  getattr :: "pystr \<Rightarrow> 'w tool option"

definition msg_missing_user_id :: pystr where
  "msg_missing_user_id =
     [0x6240, 0x6709, 0x5DE5, 0x5177, 0x8C03, 0x7528, 0x90FD, 0x5FC5, 0x987B, 0x5305, 0x542B,
      0x20, 0x75, 0x73, 0x65, 0x72, 0x5F, 0x69, 0x64]"

definition msg_internal_error :: "pystr \<Rightarrow> pystr \<Rightarrow> pystr" where
  "msg_internal_error tool_name e =
     [0x6267, 0x884C, 0x5DE5, 0x5177, 0x27] @ tool_name @
     [0x27, 0x65F6, 0x5185, 0x90E8, 0x9519, 0x8BEF, 0x3A, 0x20] @ e"

definition execute_unknown :: "'w tool" where
  "execute_unknown user_id ps w =
     (let tool_name = (case map_of ps (str ''_tool_name_from_dispatch'') of
                         Some n \<Rightarrow> n
                       | None \<Rightarrow> str ''unknown'')
      in (Returns ([0x9519, 0x8BEF, 0xFF1A, 0x672A, 0x77E5, 0x7684, 0x5DE5, 0x5177, 0x20, 0x27]
                   @ tool_name @ [0x27, 0x3002]), w))"

text \<open>
  \<open>dispatch_tool\<close> (lines 52 to 73): the method is awaited inside
  \<open>try ... except Exception\<close>, so an \<open>Exception\<close> of the method becomes a failure
  result, and any other exception leaves the dispatcher.
\<close>

definition dispatch_tool ::
  "'w ToolExecutor \<Rightarrow> pystr \<Rightarrow> params \<Rightarrow> 'w \<Rightarrow> (py_error + ToolExecutionResult) \<times> 'w" where
  "dispatch_tool ex tool_name tool_params w =
     (let missing =
            (Inr \<lparr>success = False, result = None, error = Some msg_missing_user_id\<rparr>, w) in
      case map_of tool_params (str ''user_id'') of
        None \<Rightarrow> missing
      | Some user_id \<Rightarrow>
          if user_id = [] then missing
          else
            let method_name =
                  str ''_execute_'' @
                  map (\<lambda>c. if c = 0x2D then 0x5F else c) (lower ex tool_name);
                method = (case getattr ex method_name of
                            Some m \<Rightarrow> m
                          | None \<Rightarrow> execute_unknown)
            in (case method user_id tool_params w of
                  (Returns r, w') \<Rightarrow>
                    (Inr \<lparr>success = True, result = Some r, error = None\<rparr>, w')
                | (Raises e, w') \<Rightarrow>
                    (Inr \<lparr>success = False, result = None,
                          error = Some (msg_internal_error tool_name e)\<rparr>, w')
                | (Raises_base, w') \<Rightarrow> (Inl BaseException, w')))"

section \<open>Sequential execution (core/anloop\_interpreter.py)\<close>

text \<open>
  The injection of the caller's context into the parsed parameters:
  \<open>params["user_id"] = user_id\<close>, and \<open>params["group_id"] = group_id\<close> when
  \<open>group_id\<close> is neither \<open>None\<close> nor empty.
\<close>

definition inject_context :: "pystr \<Rightarrow> pystr option \<Rightarrow> params \<Rightarrow> params" where
  "inject_context user_id group_id ps =
     (let ps1 = AList.update (str ''user_id'') user_id ps in
      case group_id of
        None \<Rightarrow> ps1
      | Some g \<Rightarrow> if g = [] then ps1 else AList.update (str ''group_id'') g ps1)"

text \<open>
  The \<open>for tool_str in tool_calls_str\<close> loop, with \<open>results\<close> as accumulator. The
  loop has no \<open>try\<close>: an exception of the parser or of the dispatcher leaves the
  function, and the calls after it are not dispatched.
\<close>

fun run_tool_calls ::
  "'w ToolExecutor \<Rightarrow> pystr \<Rightarrow> pystr option \<Rightarrow> pystr list \<Rightarrow> ToolExecutionResult list \<Rightarrow> 'w \<Rightarrow>
   py_error + (ToolExecutionResult list \<times> 'w)" where
  "run_tool_calls ex user_id group_id [] results w = Inr (results, w)"
| "run_tool_calls ex user_id group_id (tool_str # rest) results w =
     (case parse_tool_call tool_str of
        Inl e \<Rightarrow> Inl e
      | Inr (tool_name, ps) \<Rightarrow>
          (case dispatch_tool ex tool_name (inject_context user_id group_id ps) w of
             (Inl e, w') \<Rightarrow> Inl e
           | (Inr r, w') \<Rightarrow> run_tool_calls ex user_id group_id rest (results @ [r]) w'))"

definition execute_anloop_sequence ::
  "'w ToolExecutor \<Rightarrow> pystr \<Rightarrow> pystr \<Rightarrow> pystr option \<Rightarrow> 'w \<Rightarrow>
   py_error + ((ToolExecutionResult list \<times> bool) \<times> 'w)" where
  "execute_anloop_sequence ex anloop_string user_id group_id w =
     (case loop_header anloop_string of
        None \<Rightarrow> Inr (([], False), w)
      | Some (loop_content, not_resp) \<Rightarrow>
          (case run_tool_calls ex user_id group_id (tool_calls_str loop_content) [] w of
             Inl e \<Rightarrow> Inl e
           | Inr (results, w') \<Rightarrow> Inr ((results, not_resp), w')))"

text \<open>
  What the claims call the parsed calls of an input: the \<open>(tool_name, params)\<close> pairs
  that the loop hands to the dispatcher, in order (a segment whose parsing raised would
  be left out; there is none).
\<close>

definition parsed_calls :: "pystr \<Rightarrow> (pystr \<times> params) list" where
  "parsed_calls anloop_string =
     (case loop_header anloop_string of
        None \<Rightarrow> []
      | Some (loop_content, not_resp) \<Rightarrow>
          concat (map (\<lambda>tool_str. case parse_tool_call tool_str of
                                     Inl e \<Rightarrow> []
                                   | Inr c \<Rightarrow> [c])
                      (tool_calls_str loop_content)))"

text \<open>
  The spec's reading of sequential dispatch: every call is dispatched in the world the
  calls before it left behind, whatever their outcomes were.
\<close>

fun dispatch_in_sequence ::
  "'w ToolExecutor \<Rightarrow> (pystr \<times> params) list \<Rightarrow> 'w \<Rightarrow>
   (py_error + ToolExecutionResult) list \<times> 'w" where
  "dispatch_in_sequence ex [] w = ([], w)"
| "dispatch_in_sequence ex ((tool_name, ps) # calls) w =
     (case dispatch_tool ex tool_name ps w of
        (r, w') \<Rightarrow> (case dispatch_in_sequence ex calls w' of
                      (rs, w'') \<Rightarrow> (r # rs, w'')))"

section \<open>The scheduler (services/scheduler.py)\<close>

subsection \<open>Formatting an integer in an f-string\<close>

fun str_nat :: "nat \<Rightarrow> pystr" where
  "str_nat n = (if n < 10 then [0x30 + n] else str_nat (n div 10) @ [0x30 + n mod 10])"

declare str_nat.simps [simp del]

definition str_int :: "int \<Rightarrow> pystr" where
  "str_int i = (if i < 0 then 0x2D # str_nat (nat (- i)) else str_nat (nat i))"

subsection \<open>State\<close>

text \<open>
  The operations of \<open>datetime\<close> that the scheduler uses on a trigger time of type
  \<open>'dt\<close>: \<open>int(run_time.timestamp())\<close> and the \<open>strftime\<close> of the reply.
\<close>

record 'dt datetime_lib =
  int_timestamp :: "'dt \<Rightarrow> int"
  strftime :: "'dt \<Rightarrow> pystr"

text \<open>
  A job of the scheduling library: the callable it runs, its arguments, its date trigger
  and its name. The callable is the placeholder \<open>lambda: None\<close>, the registered send
  callback, or the local function \<open>review_notebook_job\<close>.
\<close>

datatype 'cb job_func = Lambda_None | Callback 'cb | Review_notebook_job

record ('dt, 'cb) job =
  job_func :: "'cb job_func"
  job_args :: "pystr option list"
  job_trigger :: 'dt
  job_name :: pystr

datatype pm_call = Stop | Start

text \<open>
  The fields of \<open>Scheduler\<close>. \<open>apscheduler\<close> is the library's scheduler with its
  job store, a table from job id to job: \<open>add_job(..., replace_existing=True)\<close> writes
  an entry, \<open>get_job\<close> reads one and \<open>job.modify\<close> rewrites fields of one;
  \<open>apscheduler_started\<close> says whether \<open>self.apscheduler.start()\<close> has run (line 167,
  from \<open>main.py\<close> line 111). \<open>process_manager\<close> is the sequence of \<open>stop()\<close> and
  \<open>start()\<close> calls made on the process manager so far.
\<close>

record ('dt, 'cb) scheduler =
  last_heartbeat_time :: real
  heartbeat_timeout :: real
  running :: bool
  apscheduler :: "pystr \<rightharpoonup> ('dt, 'cb) job"
  apscheduler_started :: bool
  pending_user_tasks :: "pystr \<rightharpoonup> pystr"
  send_message_callback :: "'cb option"
  process_manager :: "pm_call list"

text \<open>\<open>__init__\<close>, given the jobs already persisted in the store.\<close>

definition init_scheduler :: "(pystr \<rightharpoonup> ('dt, 'cb) job) \<Rightarrow> ('dt, 'cb) scheduler" where
  "init_scheduler persisted =
     \<lparr>last_heartbeat_time = 0, heartbeat_timeout = 100, running = False,
      apscheduler = persisted, apscheduler_started = False, pending_user_tasks = Map.empty,
      send_message_callback = None, process_manager = []\<rparr>"

definition register_send_message_callback ::
  "'cb \<Rightarrow> ('dt, 'cb) scheduler \<Rightarrow> ('dt, 'cb) scheduler" where
  "register_send_message_callback callback st = st\<lparr>send_message_callback := Some callback\<rparr>"

subsection \<open>Two-phase jobs\<close>

definition msg_no_pending :: pystr where
  "msg_no_pending =
     [0x9519, 0x8BEF, 0xFF1A, 0x8BF7, 0x5148, 0x4F7F, 0x7528, 0x20, 0x23, 0x42, 0x69, 0x6E,
      0x67, 0x4D, 0x65, 0x20, 0x8BBE, 0x5B9A, 0x4E00, 0x4E2A, 0x65F6, 0x95F4, 0x70B9, 0x3002]"

definition msg_job_gone :: pystr where
  "msg_job_gone =
     [0x9519, 0x8BEF, 0xFF1A, 0x5F85, 0x5904, 0x7406, 0x7684, 0x4EFB, 0x52A1, 0x5DF2, 0x8FC7,
      0x671F, 0x6216, 0x4E0D, 0x5B58, 0x5728, 0x3002]"

definition msg_no_callback :: pystr where
  "msg_no_callback =
     [0x9519, 0x8BEF, 0xFF1A, 0x7CFB, 0x7EDF, 0x5185, 0x90E8, 0x9519, 0x8BEF, 0xFF0C, 0x65E0,
      0x6CD5, 0x53D1, 0x9001, 0x6D88, 0x606F, 0xFF08, 0x56DE, 0x8C03, 0x672A, 0x6CE8, 0x518C,
      0xFF09, 0x3002]"

definition msg_message_set :: pystr where
  "msg_message_set = [0x5B9A, 0x65F6, 0x6D88, 0x606F, 0x5DF2, 0x8BBE, 0x5B9A, 0x3002]"

definition msg_notebook_set :: "pystr \<Rightarrow> pystr" where
  "msg_notebook_set notebook_name =
     [0x5B9A, 0x65F6, 0x56DE, 0x987E, 0x20, 0x4E, 0x6F, 0x74, 0x65, 0x62, 0x6F, 0x6F, 0x6B,
      0x20, 0x27] @ notebook_name @
     [0x27, 0x20, 0x7684, 0x4EFB, 0x52A1, 0x5DF2, 0x8BBE, 0x5B9A, 0x3002]"

definition msg_time_set :: "pystr \<Rightarrow> pystr" where
  "msg_time_set formatted =
     [0x65F6, 0x95F4, 0x70B9, 0x20, 0x27] @ formatted @
     [0x27, 0x20, 0x5DF2, 0x8BBE, 0x5B9A, 0x3002, 0x8BF7, 0x7EE7, 0x7EED, 0x4F7F, 0x7528,
      0x20, 0x23, 0x42, 0x69, 0x6E, 0x67, 0x4D, 0x73, 0x67, 0x20, 0x6216, 0x20, 0x23, 0x42,
      0x69, 0x6E, 0x67, 0x4E, 0x6F, 0x74, 0x65, 0x20, 0x6307, 0x5B9A, 0x4EFB, 0x52A1, 0x5185,
      0x5BB9, 0x3002]"

text \<open>The id \<open>f"pending_{user_id}_{int(run_time.timestamp())}"\<close>.\<close>

definition pending_job_id :: "'dt datetime_lib \<Rightarrow> pystr \<Rightarrow> 'dt \<Rightarrow> pystr" where
  "pending_job_id lib user_id run_time =
     str ''pending_'' @ user_id @ str ''_'' @ str_int (int_timestamp lib run_time)"

text \<open>
  \<open>self.apscheduler.add_job(..., replace_existing=True)\<close> with the job store of
  \<open>__init__\<close> (lines 31 to 34), a \<open>SQLAlchemyJobStore\<close>. On a started scheduler the
  job is written to the store within the call, which pickles it; that needs a textual
  reference to its callable, a \<open>lambda\<close> has none, and the call raises
  \<open>ValueError\<close> with nothing stored. Before the start the job is only put on the list
  of pending jobs, where \<open>get_job\<close> finds it.
\<close>

definition add_job ::
  "pystr \<Rightarrow> ('dt, 'cb) job \<Rightarrow> ('dt, 'cb) scheduler \<Rightarrow> py_error + ('dt, 'cb) scheduler" where
  "add_job job_id j st =
     (if apscheduler_started st \<and> job_func j = Lambda_None then Inl ValueError
      else Inr (st\<lparr>apscheduler := (apscheduler st)(job_id \<mapsto> j)\<rparr>))"

text \<open>
  \<open>add_bing_me_task\<close> (lines 86 to 104). An exception of \<open>add_job\<close> leaves the
  function before the pointer is written.
\<close>

definition add_bing_me_task ::
  "'dt datetime_lib \<Rightarrow> pystr \<Rightarrow> 'dt \<Rightarrow> ('dt, 'cb) scheduler \<Rightarrow>
   py_error + (pystr \<times> ('dt, 'cb) scheduler)" where
  "add_bing_me_task lib user_id run_time st =
     (let job_id = pending_job_id lib user_id run_time in
      case add_job job_id
             \<lparr>job_func = Lambda_None, job_args = [], job_trigger = run_time,
              job_name = str ''Pending task for '' @ user_id\<rparr> st of
        Inl e \<Rightarrow> Inl e
      | Inr st1 \<Rightarrow>
          let st2 = st1\<lparr>pending_user_tasks := (pending_user_tasks st1)(user_id \<mapsto> job_id)\<rparr>
          in Inr (msg_time_set (strftime lib run_time), st2))"

text \<open>
  \<open>self._pending_user_tasks.pop(user_id, None)\<close> comes first and is never undone; an
  absent key and an empty id both count as no pending job.
\<close>

definition update_pending_task_with_message ::
  "pystr \<Rightarrow> pystr \<Rightarrow> ('dt, 'cb) scheduler \<Rightarrow> pystr \<times> ('dt, 'cb) scheduler" where
  "update_pending_task_with_message user_id message st =
     (let popped = pending_user_tasks st user_id;
          st1 = st\<lparr>pending_user_tasks := (pending_user_tasks st)(user_id := None)\<rparr>
      in case popped of
           None \<Rightarrow> (msg_no_pending, st1)
         | Some jid \<Rightarrow>
             if jid = [] then (msg_no_pending, st1)
             else (case apscheduler st1 jid of
                     None \<Rightarrow> (msg_job_gone, st1)
                   | Some job \<Rightarrow>
                       (case send_message_callback st1 of
                          None \<Rightarrow> (msg_no_callback, st1)
                        | Some callback \<Rightarrow>
                            (msg_message_set,
                             st1\<lparr>apscheduler := (apscheduler st1)(jid \<mapsto>
                                   job\<lparr>job_func := Callback callback,
                                       job_args := [Some user_id, None, Some (str ''private''),
                                                    Some message],
                                       job_name := str ''Send '' @ [0x27] @ take 10 message @
                                                   str ''...'' @ [0x27] @ str '' to '' @
                                                   user_id\<rparr>)\<rparr>))))"

definition update_pending_task_with_notebook ::
  "pystr \<Rightarrow> pystr \<Rightarrow> ('dt, 'cb) scheduler \<Rightarrow> pystr \<times> ('dt, 'cb) scheduler" where
  "update_pending_task_with_notebook user_id notebook_name st =
     (let popped = pending_user_tasks st user_id;
          st1 = st\<lparr>pending_user_tasks := (pending_user_tasks st)(user_id := None)\<rparr>
      in case popped of
           None \<Rightarrow> (msg_no_pending, st1)
         | Some jid \<Rightarrow>
             if jid = [] then (msg_no_pending, st1)
             else (case apscheduler st1 jid of
                     None \<Rightarrow> (msg_job_gone, st1)
                   | Some job \<Rightarrow>
                       (msg_notebook_set notebook_name,
                        st1\<lparr>apscheduler := (apscheduler st1)(jid \<mapsto>
                              job\<lparr>job_func := Review_notebook_job,
                                  job_args := [Some user_id, Some notebook_name],
                                  job_name := str ''Review notebook '' @ [0x27] @
                                              notebook_name @ [0x27] @ str '' for '' @
                                              user_id\<rparr>)\<rparr>)))"

text \<open>
  The spec's \<open>Configure(sessionKey, payload)\<close>: \<open>#BingMsg\<close> configures a message,
  \<open>#BingNote\<close> a notebook review.
\<close>

datatype payload = Message pystr | Notebook pystr

definition configure ::
  "pystr \<Rightarrow> payload \<Rightarrow> ('dt, 'cb) scheduler \<Rightarrow> pystr \<times> ('dt, 'cb) scheduler" where
  "configure user_id p st =
     (case p of
        Message m \<Rightarrow> update_pending_task_with_message user_id m st
      | Notebook n \<Rightarrow> update_pending_task_with_notebook user_id n st)"

subsection \<open>The heartbeat watchdog\<close>

text \<open>
  \<open>update_heartbeat\<close> stores the reading of \<open>time.time()\<close> it is given. Times are
  seconds, as real numbers.
\<close>

definition update_heartbeat :: "real \<Rightarrow> ('dt, 'cb) scheduler \<Rightarrow> ('dt, 'cb) scheduler" where
  "update_heartbeat now st = st\<lparr>last_heartbeat_time := now\<rparr>"

text \<open>
  What one pass through the body of the \<open>while self.running\<close> loop of
  \<open>_monitor_gocq_process\<close> reads from outside: the clock at the check, what
  \<open>process_manager.start()\<close> returns, and the clock when the heartbeat is reset after the
  restart.
\<close>

record poll =
  check_time :: real
  start_returns :: bool
  restart_time :: real

definition monitor_iteration :: "poll \<Rightarrow> ('dt, 'cb) scheduler \<Rightarrow> ('dt, 'cb) scheduler" where
  "monitor_iteration p st =
     (if check_time p - last_heartbeat_time st > heartbeat_timeout st then
        let st1 = st\<lparr>process_manager := process_manager st @ [Stop]\<rparr>;
            st2 = st1\<lparr>process_manager := process_manager st1 @ [Start]\<rparr>
        in if start_returns p then update_heartbeat (restart_time p) st2 else st2
      else st)"

text \<open>
  The loop runs on one thread with the event handlers: between two passes (during the
  sleeps) \<open>QQBot.handle_event\<close> calls \<open>update_heartbeat\<close> for every heartbeat received.
  A run is the sequence of those calls and of the passes of the loop; a pass happens
  only while \<open>running\<close> holds.
\<close>

datatype event = Heartbeat real | Poll poll

fun monitor_gocq_process :: "event list \<Rightarrow> ('dt, 'cb) scheduler \<Rightarrow> ('dt, 'cb) scheduler" where
  "monitor_gocq_process [] st = st"
| "monitor_gocq_process (Heartbeat t # es) st = monitor_gocq_process es (update_heartbeat t st)"
| "monitor_gocq_process (Poll p # es) st =
     (if running st then monitor_gocq_process es (monitor_iteration p st)
      else monitor_gocq_process es st)"

text \<open>
  The spec's "every heartbeat arrives within the timeout": at every check of the run,
  the latest heartbeat (\<open>latest\<close> at first) is at most \<open>timeout\<close> old.
\<close>

fun heartbeats_on_time :: "real \<Rightarrow> real \<Rightarrow> event list \<Rightarrow> bool" where
  "heartbeats_on_time timeout latest [] = True"
| "heartbeats_on_time timeout latest (Heartbeat t # es) = heartbeats_on_time timeout t es"
| "heartbeats_on_time timeout latest (Poll p # es) =
     (check_time p - latest \<le> timeout \<and> heartbeats_on_time timeout latest es)"

section \<open>The QQ front end (bot/qqbot.py)\<close>

subsection \<open>Constants and state\<close>

definition GROUP_MESSAGE_BUFFER_THRESHOLD_FIXED :: int where
  "GROUP_MESSAGE_BUFFER_THRESHOLD_FIXED = 5"

definition GROUP_MESSAGE_BUFFER_THRESHOLD_RANDOM :: int where
  "GROUP_MESSAGE_BUFFER_THRESHOLD_RANDOM = 5"

definition MAX_MESSAGE_LENGTH_PRIVATE :: nat where
  "MAX_MESSAGE_LENGTH_PRIVATE = 3000"

definition GROUP_REPLY_COOLDOWN :: real where
  "GROUP_REPLY_COOLDOWN = 20"

text \<open>
  \<open>random.randint(a, b)\<close>: an integer of the closed range from \<open>a\<close> to \<open>b\<close>, any of
  them, chosen by the state \<open>rho\<close> of the random source; \<open>ValueError\<close> when the range
  is empty.
\<close>

definition randint :: "int \<Rightarrow> int \<Rightarrow> nat \<Rightarrow> py_error + int" where
  "randint a b rho =
     (if b < a then Inl ValueError else Inr (a + int (rho mod nat (b - a + 1))))"

text \<open>
  A debounce timer is an asyncio task. \<open>create_task\<close> only schedules its first step:
  the task is created, and sleeping once that step has run. \<open>cancel()\<close> marks the task;
  the mark takes effect when the task is next resumed, and until then \<open>done()\<close> is
  false. A task marked while sleeping is resumed inside its \<open>try\<close> block, so its
  handlers run; a task marked before its first step is ended without running any of its
  body. A handle is the position of the task in the list of all tasks created.
\<close>

datatype task_state = Created | Cancelled_unstarted | Sleeping | Cancelling | Finished

text \<open>One \<open>http_client.post\<close>: the endpoint, the numeric target id and the message.\<close>

record post =
  post_endpoint :: pystr
  post_target :: int
  post_message :: pystr

text \<open>A reply stored by \<open>add_message_to_history\<close> with role \<open>assistant\<close>.\<close>

record history_entry =
  h_user_id :: pystr
  h_message_type :: pystr
  h_content :: pystr
  h_group_id :: "pystr option"

text \<open>
  The fields of \<open>QQBot\<close> that buffering and throttling use, for message events of type
  \<open>'ev\<close>. \<open>handed_over\<close> lists the batches that \<open>_process_buffered_group_messages\<close>
  popped and passed on, \<open>posted\<close> the transmissions attempted, \<open>history\<close> the replies
  recorded.
\<close>

record 'ev qqbot =
  group_message_buffers :: "pystr \<rightharpoonup> 'ev list"
  group_message_timers :: "pystr \<rightharpoonup> nat"
  timer_tasks :: "task_state list"
  handed_over :: "(pystr \<times> 'ev list) list"
  last_group_reply_time :: "pystr \<rightharpoonup> real"
  group_reply_buffers :: "pystr \<rightharpoonup> pystr list"
  posted :: "post list"
  history :: "history_entry list"

definition init_qqbot :: "'ev qqbot" where
  "init_qqbot =
     \<lparr>group_message_buffers = Map.empty, group_message_timers = Map.empty, timer_tasks = [],
      handed_over = [], last_group_reply_time = Map.empty, group_reply_buffers = Map.empty,
      posted = [], history = []\<rparr>"

subsection \<open>Buffering of group messages\<close>

definition task_done :: "'ev qqbot \<Rightarrow> nat \<Rightarrow> bool" where
  "task_done st h \<longleftrightarrow> (if h < length (timer_tasks st) then timer_tasks st ! h = Finished else True)"

definition cancel :: "nat \<Rightarrow> 'ev qqbot \<Rightarrow> 'ev qqbot" where
  "cancel h st =
     (if h < length (timer_tasks st) then
        (case timer_tasks st ! h of
           Created \<Rightarrow> st\<lparr>timer_tasks := (timer_tasks st)[h := Cancelled_unstarted]\<rparr>
         | Sleeping \<Rightarrow> st\<lparr>timer_tasks := (timer_tasks st)[h := Cancelling]\<rparr>
         | Cancelled_unstarted \<Rightarrow> st
         | Cancelling \<Rightarrow> st
         | Finished \<Rightarrow> st)
      else st)"

text \<open>
  \<open>_process_buffered_group_messages\<close>: nothing for an absent or empty buffer;
  otherwise the buffer is popped and the batch, oldest first, goes to the bot core.
  What follows the pop (asking the core for a reply and passing it to \<open>send_message\<close>)
  works on the popped batch and reads neither the buffers nor the timers.
\<close>

definition process_buffered_group_messages :: "pystr \<Rightarrow> 'ev qqbot \<Rightarrow> 'ev qqbot" where
  "process_buffered_group_messages group_id st =
     (case group_message_buffers st group_id of
        None \<Rightarrow> st
      | Some [] \<Rightarrow> st
      | Some (e # es) \<Rightarrow>
          st\<lparr>group_message_buffers := (group_message_buffers st)(group_id := None),
             handed_over := handed_over st @ [(group_id, e # es)]\<rparr>)"

text \<open>
  Step 3 of \<open>_handle_message_event\<close> (lines 110 to 130), taken for a group message
  that does not mention the bot: append, cancel a live timer, draw the threshold, then
  flush or start a timer.
\<close>

definition handle_message_event_group ::
  "pystr \<Rightarrow> 'ev \<Rightarrow> nat \<Rightarrow> 'ev qqbot \<Rightarrow> py_error + 'ev qqbot" where
  "handle_message_event_group group_id msg_event rho st =
     (let buf = (case group_message_buffers st group_id of None \<Rightarrow> [] | Some b \<Rightarrow> b)
                @ [msg_event];
          st1 = st\<lparr>group_message_buffers := (group_message_buffers st)(group_id \<mapsto> buf)\<rparr>;
          st2 = (case group_message_timers st1 group_id of
                   None \<Rightarrow> st1
                 | Some h \<Rightarrow> if task_done st1 h then st1 else cancel h st1)
      in case randint 0 GROUP_MESSAGE_BUFFER_THRESHOLD_RANDOM rho of
           Inl e \<Rightarrow> Inl e
         | Inr r \<Rightarrow>
             let threshold = GROUP_MESSAGE_BUFFER_THRESHOLD_FIXED + r in
             if threshold \<le> int (length buf)
             then Inr (process_buffered_group_messages group_id st2)
             else Inr (st2\<lparr>timer_tasks := timer_tasks st2 @ [Created],
                          group_message_timers :=
                            (group_message_timers st2)(group_id \<mapsto> length (timer_tasks st2))\<rparr>))"

text \<open>
  \<open>_start_group_message_timer\<close>, one resumption of task \<open>h\<close> by the event loop.
  A created task runs its first step, into the sleep. A task cancelled before that step
  ends there: the exception is thrown at the start of the coroutine, outside the \<open>try\<close>
  block, so neither handler nor \<open>finally\<close> runs and nothing is popped. A sleeping
  task whose sleep is over runs the body (an exception of the body is caught and logged)
  and the \<open>finally\<close> clause, which pops the handle stored under the group, whichever
  task it belongs to. A task cancelled in its sleep runs the \<open>CancelledError\<close> handler
  and the same \<open>finally\<close> clause.
\<close>

definition start_group_message_timer ::
  "pystr \<Rightarrow> nat \<Rightarrow> nat \<Rightarrow> 'ev qqbot \<Rightarrow> 'ev qqbot" where
  "start_group_message_timer group_id h rho st =
     (if h < length (timer_tasks st) then
        (case timer_tasks st ! h of
           Created \<Rightarrow> st\<lparr>timer_tasks := (timer_tasks st)[h := Sleeping]\<rparr>
         | Cancelled_unstarted \<Rightarrow> st\<lparr>timer_tasks := (timer_tasks st)[h := Finished]\<rparr>
         | Sleeping \<Rightarrow>
             let st1 =
                   (case group_message_buffers st group_id of
                      None \<Rightarrow> st
                    | Some [] \<Rightarrow> st
                    | Some (e # es) \<Rightarrow>
                        (case randint 2 GROUP_MESSAGE_BUFFER_THRESHOLD_RANDOM rho of
                           Inl err \<Rightarrow> st
                         | Inr r \<Rightarrow>
                             let threshold = GROUP_MESSAGE_BUFFER_THRESHOLD_FIXED + r in
                             if threshold \<le> int (length (e # es))
                             then process_buffered_group_messages group_id st
                             else st))
             in st1\<lparr>group_message_timers := (group_message_timers st1)(group_id := None),
                    timer_tasks := (timer_tasks st1)[h := Finished]\<rparr>
         | Cancelling \<Rightarrow>
             st\<lparr>group_message_timers := (group_message_timers st)(group_id := None),
                timer_tasks := (timer_tasks st)[h := Finished]\<rparr>
         | Finished \<Rightarrow> st)
      else st)"

subsection \<open>Sending and the reply cooldown\<close>

datatype post_result = Post_ok | Post_not_ok | Post_raised

text \<open>
  What \<open>send_message\<close> reads from outside: the event loop's clock; Python's \<open>int\<close> on
  a string (\<open>None\<close> where it raises \<open>ValueError\<close>); whether \<open>get_context\<close> returns
  for a user and group; the inference call, from prompt and system instruction to the
  text returned (\<open>Inr\<close>) or the exception raised (\<open>Inl\<close>); the outcome of a post (status
  ok, another status, or an exception); and whether recording a reply succeeds.
\<close>

record send_env =
  current_time :: real
  py_int :: "pystr \<Rightarrow> int option"
  get_context :: "pystr \<Rightarrow> pystr \<Rightarrow> bool"
  call_gemini_api :: "pystr \<Rightarrow> pystr \<Rightarrow> pystr + pystr"
  http_post :: "post \<Rightarrow> post_result"
  add_message_to_history :: "history_entry \<Rightarrow> bool"

definition msg_summary_failed :: pystr where
  "msg_summary_failed =
     [0x62B1, 0x6B49, 0xFF0C, 0x6211, 0x5C1D, 0x8BD5, 0x603B, 0x7ED3, 0x7FA4, 0x804A, 0x56DE,
      0x590D, 0x65F6, 0x9047, 0x5230, 0x4E86, 0x4E00, 0x4E9B, 0x95EE, 0x9898, 0x3002]"

definition summary_system_instruction :: pystr where
  "summary_system_instruction =
     [0x4F60, 0x662F, 0x4E00, 0x4E2A, 0x41, 0x49, 0x52A9, 0x624B, 0xFF0C, 0x8D1F, 0x8D23,
      0x603B, 0x7ED3, 0x591A, 0x6761, 0x56DE, 0x590D, 0x3002]"

definition summary_prompt :: "pystr \<Rightarrow> pystr" where
  "summary_prompt combined_reply_content =
     [0xA, 0x4F60, 0x662F, 0x4E00, 0x4E2A, 0x41, 0x49, 0x52A9, 0x624B, 0xFF0C, 0x9700, 0x8981,
      0x603B, 0x7ED3, 0x4EE5, 0x4E0B, 0x591A, 0x6761, 0x56DE, 0x590D, 0x5185, 0x5BB9, 0xFF0C,
      0x5E76, 0x751F, 0x6210, 0x4E00, 0x4E2A, 0x7B80, 0x6D01, 0x3001, 0x8FDE, 0x8D2F, 0x7684,
      0x6700, 0x7EC8, 0x56DE, 0x590D, 0x3002, 0xA, 0x8FD9, 0x4E9B, 0x56DE, 0x590D, 0x662F,
      0x41, 0x6E, 0x5A, 0x61, 0x69, 0x42, 0x6F, 0x74, 0x5728, 0x77ED, 0x65F6, 0x95F4, 0x5185,
      0x5BF9, 0x7FA4, 0x804A, 0x6D88, 0x606F, 0x7684, 0x54CD, 0x5E94, 0x3002, 0xA, 0xA,
      0x8BF7, 0x5C06, 0x4EE5, 0x4E0B, 0x5185, 0x5BB9, 0x603B, 0x7ED3, 0x6210, 0x4E00, 0x6761,
      0x56DE, 0x590D, 0xFF1A, 0xA] @ combined_reply_content @
     [0xA, 0xA, 0x8BF7, 0x76F4, 0x63A5, 0x8F93, 0x51FA, 0x603B, 0x7ED3, 0x540E, 0x7684, 0x56DE,
      0x590D, 0xFF0C, 0x4E0D, 0x8981, 0x5305, 0x542B, 0x4EFB, 0x4F55, 0x989D, 0x5916, 0x7684,
      0x89E3, 0x91CA, 0x3002, 0xA]"

text \<open>
  The \<open>try\<close> block of lines 283 to 312: the message list that replaces
  \<open>messages_to_send\<close>, the summary when context and inference both return, the fixed
  apology when either raises.
\<close>

definition summarize_replies :: "send_env \<Rightarrow> pystr \<Rightarrow> pystr \<Rightarrow> pystr list \<Rightarrow> pystr list" where
  "summarize_replies env user_id group_id all_buffered_replies =
     (let combined_reply_content = join [0xA] all_buffered_replies in
      if get_context env user_id group_id then
        (case call_gemini_api env (summary_prompt combined_reply_content)
                summary_system_instruction of
           Inr final_reply_content \<Rightarrow> [final_reply_content]
         | Inl e \<Rightarrow> [msg_summary_failed])
      else [msg_summary_failed])"

text \<open>The slices \<open>content[i:i+n]\<close> for \<open>i\<close> in \<open>range(0, len(content), n)\<close>.\<close>

function chunks :: "nat \<Rightarrow> pystr \<Rightarrow> pystr list" where
  "chunks n s = (if n = 0 \<or> s = [] then [] else take n s # chunks n (drop n s))"
  by pat_completeness auto
termination
  by (relation "measure (\<lambda>(n, s). length s)") auto

declare chunks.simps [simp del]

text \<open>
  The loop over \<open>enumerate(messages_to_send)\<close>: every part is posted; an exception
  (of the post, or of recording the first part) ends the loop.
\<close>

fun send_parts ::
  "send_env \<Rightarrow> pystr \<Rightarrow> int \<Rightarrow> history_entry \<Rightarrow> nat \<Rightarrow> pystr list \<Rightarrow> 'ev qqbot \<Rightarrow> 'ev qqbot" where
  "send_parts env endpoint target entry i [] st = st"
| "send_parts env endpoint target entry i (msg_part # rest) st =
     (let p = \<lparr>post_endpoint = endpoint, post_target = target, post_message = msg_part\<rparr>;
          st1 = st\<lparr>posted := posted st @ [p]\<rparr>
      in case http_post env p of
           Post_raised \<Rightarrow> st1
         | Post_not_ok \<Rightarrow> send_parts env endpoint target entry (i + 1) rest st1
         | Post_ok \<Rightarrow>
             if i = 0 then
               (if add_message_to_history env entry
                then send_parts env endpoint target entry (i + 1) rest
                       (st1\<lparr>history := history st1 @ [entry]\<rparr>)
                else st1)
             else send_parts env endpoint target entry (i + 1) rest st1)"

definition send_message ::
  "send_env \<Rightarrow> pystr \<Rightarrow> pystr option \<Rightarrow> pystr \<Rightarrow> pystr \<Rightarrow> pystr option \<Rightarrow> 'ev qqbot \<Rightarrow>
   py_error + 'ev qqbot" where
  "send_message env user_id group_id message_type content at_user_id st =
     (let entry = \<lparr>h_user_id = user_id, h_message_type = message_type, h_content = content,
                   h_group_id = group_id\<rparr>
      in
      if message_type = str ''private'' then
        (let messages_to_send =
               (if MAX_MESSAGE_LENGTH_PRIVATE < length content
                then chunks MAX_MESSAGE_LENGTH_PRIVATE content
                else [content])
         in case py_int env user_id of
              None \<Rightarrow> Inl ValueError
            | Some uid \<Rightarrow>
                Inr (send_parts env (str ''/send_private_msg'') uid entry 0 messages_to_send st))
      else
        (case (if message_type = str ''group'' then group_id else None) of
           None \<Rightarrow> Inr st
         | Some gid \<Rightarrow>
             if gid = [] then Inr st
             else
               (let messages_to_send =
                      [case at_user_id of
                         None \<Rightarrow> content
                       | Some a \<Rightarrow>
                           if a = [] then content
                           else str ''[CQ:at,qq='' @ a @ str ''] '' @ content]
                in case py_int env gid of
                     None \<Rightarrow> Inl ValueError
                   | Some g \<Rightarrow>
                       let last_reply_time =
                             (case last_group_reply_time st gid of None \<Rightarrow> 0 | Some t \<Rightarrow> t)
                       in
                       if current_time env - last_reply_time < GROUP_REPLY_COOLDOWN then
                         Inr (st\<lparr>group_reply_buffers := (group_reply_buffers st)(gid \<mapsto>
                                   (case group_reply_buffers st gid of
                                      None \<Rightarrow> []
                                    | Some b \<Rightarrow> b) @ [content])\<rparr>)
                       else
                         (case (case group_reply_buffers st gid of
                                  None \<Rightarrow> (messages_to_send, st)
                                | Some [] \<Rightarrow> (messages_to_send, st)
                                | Some (b # bs) \<Rightarrow>
                                    (summarize_replies env user_id gid ((b # bs) @ [content]),
                                     st\<lparr>group_reply_buffers :=
                                          (group_reply_buffers st)(gid := None)\<rparr>)) of
                            (to_send, st1) \<Rightarrow>
                              Inr (send_parts env (str ''/send_group_msg'') g entry 0 to_send
                                     (st1\<lparr>last_group_reply_time :=
                                            (last_group_reply_time st1)(gid \<mapsto>
                                               current_time env)\<rparr>))))))"

section \<open>Example environments\<close>

text \<open>
  An executor with three tools over a counter as world: \<open>_execute_fail\<close> raises an
  \<open>Exception\<close>, \<open>_execute_count\<close> returns, and \<open>_execute_cancel\<close> is cancelled
  while it is awaited; all increment the counter. Names are taken as lower case already.
\<close>

definition demo_executor :: "nat ToolExecutor" where
  "demo_executor =
     \<lparr>lower = (\<lambda>s. s),
      getattr = (\<lambda>m. if m = str ''_execute_fail''
                        then Some (\<lambda>u ps w. (Raises (str ''boom''), w + 1))
                      else if m = str ''_execute_count''
                        then Some (\<lambda>u ps w. (Returns (str ''ok''), w + 1))
                      else if m = str ''_execute_cancel''
                        then Some (\<lambda>u ps w. (Raises_base, w + 1))
                      else None)\<rparr>"

text \<open>
  A scheduler whose awaiting pointer for user 42 names a job that is no longer in the
  store.
\<close>

definition stale_scheduler :: "(int, unit) scheduler" where
  "stale_scheduler =
     (init_scheduler Map.empty)\<lparr>pending_user_tasks := [str ''42'' \<mapsto> str ''pending_42_100'']\<rparr>"

text \<open>
  Trigger times as whole seconds since the epoch, and the scheduler as \<open>main.py\<close> sets
  it up: created, then given its send callback.
\<close>

definition demo_lib :: "int datetime_lib" where
  "demo_lib = \<lparr>int_timestamp = (\<lambda>t. t), strftime = str_int\<rparr>"

definition demo_scheduler :: "(int, unit) scheduler" where
  "demo_scheduler = register_send_message_callback () (init_scheduler Map.empty)"

text \<open>
  The same scheduler once \<open>start()\<close> has run, as it is whenever a tool call reaches
  it.
\<close>

definition live_scheduler :: "(int, unit) scheduler" where
  "live_scheduler = demo_scheduler\<lparr>apscheduler_started := True, running := True\<rparr>"

text \<open>
  A watchdog scenario with the timeout of 100 seconds: the scheduler started at time 0;
  heartbeats up to time 95 and a check at time 100; a check at time 196, 101 seconds
  after the last heartbeat, with a restart that succeeds at time 199; then checks every
  10 seconds from time 219 and a heartbeat at time 230.
\<close>

definition started_scheduler :: "(int, unit) scheduler" where
  "started_scheduler = (init_scheduler Map.empty)\<lparr>running := True\<rparr>"

definition quiet_run :: "event list" where
  "quiet_run =
     [Heartbeat 5, Heartbeat 50, Heartbeat 90,
      Poll \<lparr>check_time = 100, start_returns = True, restart_time = 103\<rparr>,
      Heartbeat 95]"

definition late_poll :: poll where
  "late_poll = \<lparr>check_time = 196, start_returns = True, restart_time = 199\<rparr>"

definition recovered_run :: "event list" where
  "recovered_run =
     [Poll \<lparr>check_time = 219, start_returns = True, restart_time = 222\<rparr>,
      Poll \<lparr>check_time = 229, start_returns = True, restart_time = 232\<rparr>,
      Heartbeat 230,
      Poll \<lparr>check_time = 239, start_returns = True, restart_time = 242\<rparr>]"

text \<open>
  Two states of the aggregator for group 777, with events numbered in arrival order:
  four events buffered and no timer; six events buffered and a sleeping timer; seven
  events buffered and a sleeping timer.
\<close>

definition four_buffered :: "nat qqbot" where
  "four_buffered = init_qqbot\<lparr>group_message_buffers := [str ''777'' \<mapsto> [1, 2, 3, 4]]\<rparr>"

definition six_waiting :: "nat qqbot" where
  "six_waiting =
     init_qqbot\<lparr>group_message_buffers := [str ''777'' \<mapsto> [1, 2, 3, 4, 5, 6]],
                group_message_timers := [str ''777'' \<mapsto> 0],
                timer_tasks := [Sleeping]\<rparr>"

definition seven_waiting :: "nat qqbot" where
  "seven_waiting =
     init_qqbot\<lparr>group_message_buffers := [str ''777'' \<mapsto> [1, 2, 3, 4, 5, 6, 7]],
                group_message_timers := [str ''777'' \<mapsto> 0],
                timer_tasks := [Sleeping]\<rparr>"

text \<open>
  An environment for \<open>send_message\<close> at a given clock reading and with a given
  inference call: \<open>int\<close> knows the two ids used, the context is available, every post
  returns status ok and recording succeeds. The inference call either fails or answers.
  \<open>cooled_group\<close> is group 777 with one pending reply and a last reply at time 100.
\<close>

definition demo_env :: "real \<Rightarrow> (pystr \<Rightarrow> pystr \<Rightarrow> pystr + pystr) \<Rightarrow> send_env" where
  "demo_env now api =
     \<lparr>current_time = now,
      py_int = (\<lambda>s. if s = str ''777'' then Some 777 else if s = str ''42'' then Some 42 else None),
      get_context = (\<lambda>u g. True),
      call_gemini_api = api,
      http_post = (\<lambda>p. Post_ok),
      add_message_to_history = (\<lambda>e. True)\<rparr>"


definition api_answers :: "pystr \<Rightarrow> pystr \<Rightarrow> pystr + pystr" where
  "api_answers prompt system_instruction = Inr (str ''summary'')"

definition cooled_group :: "nat qqbot" where
  "cooled_group =
     init_qqbot\<lparr>last_group_reply_time := [str ''777'' \<mapsto> 100],
                group_reply_buffers := [str ''777'' \<mapsto> [str ''a'']]\<rparr>"

text \<open>
  A run with a heartbeat at 95, checks every 10 seconds from 100 to 190, the next
  heartbeat at 196, and checks at 200 and 210.
\<close>

definition check_at :: "real \<Rightarrow> event" where
  "check_at t = Poll \<lparr>check_time = t, start_returns = True, restart_time = t + 3\<rparr>"

definition unseen_gap_run :: "event list" where
  "unseen_gap_run =
     [Heartbeat 95, check_at 100, check_at 110, check_at 120, check_at 130, check_at 140,
      check_at 150, check_at 160, check_at 170, check_at 180, check_at 190,
      Heartbeat 196, check_at 200, check_at 210]"

section \<open>Properties\<close>

subsection \<open>Parameter parsing\<close>

lemma parse_pairs_returns: "\<exists>ps'. parse_pairs i pairs ps = Inr ps'"
  by (induction pairs arbitrary: i ps) (simp_all add: split1_def)

lemma parse_tool_call_returns: "\<exists>c. parse_tool_call tool_str = Inr c"
proof (cases "0x3D \<in> set (strip tool_str)")
  case True
  obtain ps where "parse_pairs 0 (split_on 0x3B (drop 1 (dropWhile (\<lambda>c. c \<noteq> 0x3D) (strip tool_str)))) [] = Inr ps"
    using parse_pairs_returns by blast
  with True show ?thesis
    by (simp add: parse_tool_call_def split1_def Let_def)
next
  case False
  then show ?thesis
    by (simp add: parse_tool_call_def split1_def Let_def)
qed

lemma split_on_first: "split_on sep s = takeWhile (\<lambda>c. c \<noteq> sep) s # tl (split_on sep s)"
  by (induction s) (auto split: list.splits)

lemma parse_pairs_unkeyed_rest:
  "0 < i \<Longrightarrow> \<forall>p \<in> set pairs. 0x3D \<notin> set p \<Longrightarrow> parse_pairs i pairs ps = Inr ps"
  by (induction pairs arbitrary: i) simp_all

lemma set_split_on: "p \<in> set (split_on sep s) \<Longrightarrow> set p \<subseteq> set s"
proof (induction s arbitrary: p)
  case Nil
  then show ?case by simp
next
  case (Cons a s)
  show ?case
  proof (cases "a = sep")
    case True
    with Cons show ?thesis by auto
  next
    case False
    obtain q qs where q: "split_on sep s = q # qs"
      by (cases "split_on sep s") (use split_on_first in fastforce)+
    with False Cons.prems have "p = a # q \<or> p \<in> set qs" by simp
    moreover have "set q \<subseteq> set s" using Cons.IH q by simp
    moreover have "\<forall>p' \<in> set qs. set p' \<subseteq> set s" using Cons.IH q by simp
    ultimately show ?thesis by auto
  qed
qed

lemma parse_pairs_unkeyed:
  assumes "0x3D \<notin> set r"
  shows "parse_pairs 0 (split_on 0x3B r) [] = Inr [(str ''content'', strip (takeWhile (\<lambda>c. c \<noteq> 0x3B) r))]"
proof -
  have "\<forall>p \<in> set (split_on 0x3B r). 0x3D \<notin> set p"
    using assms set_split_on by blast
  then have a: "0x3D \<notin> set (takeWhile (\<lambda>c. c \<noteq> 0x3B) r)" and b: "\<forall>p \<in> set (tl (split_on 0x3B r)). 0x3D \<notin> set p"
    by (metis list.set_intros(1) split_on_first, metis list.set_intros(2) split_on_first)
  have "parse_pairs 0 (split_on 0x3B r) [] = parse_pairs 0 (takeWhile (\<lambda>c. c \<noteq> 0x3B) r # tl (split_on 0x3B r)) []"
    using split_on_first by metis
  also have "\<dots> = Inr [(str ''content'', strip (takeWhile (\<lambda>c. c \<noteq> 0x3B) r))]"
    using a b by (simp add: parse_pairs_unkeyed_rest)
  finally show ?thesis .
qed

text \<open>
  Claim C6, as the code has it. \<open>_parse_tool_call\<close> never raises. A segment without
  any \<open>=\<close> yields no parameter at all. A segment whose text after the first \<open>=\<close>
  holds no further \<open>=\<close> (no \<open>key=value\<close> pair) yields one parameter: \<open>content\<close>,
  holding the stripped text up to the first semicolon, when that text is not blank;
  \<open>query\<close>, holding the raw text after the \<open>=\<close>, only when it is blank.
\<close>

theorem parse_tool_call_unkeyed:
  "(\<exists>c. parse_tool_call tool_str = Inr c) \<and>
   (0x3D \<notin> set (strip tool_str) \<longrightarrow>
      parse_tool_call tool_str = Inr (drop 1 (strip tool_str), [])) \<and>
   (split1 0x3D (strip tool_str) = [p0, r] \<and> 0x3D \<notin> set r \<longrightarrow>
      parse_tool_call tool_str =
        Inr (drop 1 p0,
             if strip (takeWhile (\<lambda>c. c \<noteq> 0x3B) r) = [] then [(str ''query'', r)]
             else [(str ''content'', strip (takeWhile (\<lambda>c. c \<noteq> 0x3B) r))]))"
proof (intro conjI impI)
  show "\<exists>c. parse_tool_call tool_str = Inr c" by (rule parse_tool_call_returns)
next
  assume "0x3D \<notin> set (strip tool_str)"
  then show "parse_tool_call tool_str = Inr (drop 1 (strip tool_str), [])"
    by (simp add: parse_tool_call_def split1_def Let_def)
next
  assume h: "split1 0x3D (strip tool_str) = [p0, r] \<and> 0x3D \<notin> set r"
  then show "parse_tool_call tool_str =
        Inr (drop 1 p0,
             if strip (takeWhile (\<lambda>c. c \<noteq> 0x3B) r) = [] then [(str ''query'', r)]
             else [(str ''content'', strip (takeWhile (\<lambda>c. c \<noteq> 0x3B) r))])"
    by (simp add: parse_tool_call_def Let_def parse_pairs_unkeyed)
qed

theorem parse_tool_call_unkeyed_witness:
  "parse_tool_call (str ''#Memo'') = Inr (str ''Memo'', []) \<and>
   parse_tool_call (str ''#X= ;abc'') = Inr (str ''X'', [(str ''query'', str '' ;abc'')]) \<and>
   parse_tool_call (str ''#Memo= note '') = Inr (str ''Memo'', [(str ''content'', str ''note'')])"
proof -
  have h1: "0x3D \<notin> set (strip (str ''#Memo''))"
    by (simp add: str_def strip_def strip_where_def is_space_def)
  have h2: "split1 0x3D (strip (str ''#X= ;abc'')) = [str ''#X'', str '' ;abc''] \<and>
            0x3D \<notin> set (str '' ;abc'')"
    by (simp add: str_def split1_def strip_def strip_where_def is_space_def)
  have h3: "split1 0x3D (strip (str ''#Memo= note '')) = [str ''#Memo'', str '' note''] \<and>
            0x3D \<notin> set (str '' note'')"
    by (simp add: str_def split1_def strip_def strip_where_def is_space_def)
  have "parse_tool_call (str ''#Memo'') = Inr (drop 1 (strip (str ''#Memo'')), [])"
    using parse_tool_call_unkeyed [of "str ''#Memo''"] h1 by blast
  moreover have "parse_tool_call (str ''#X= ;abc'') =
        Inr (drop 1 (str ''#X''),
             if strip (takeWhile (\<lambda>c. c \<noteq> 0x3B) (str '' ;abc'')) = [] then [(str ''query'', str '' ;abc'')]
             else [(str ''content'', strip (takeWhile (\<lambda>c. c \<noteq> 0x3B) (str '' ;abc'')))])"
    using parse_tool_call_unkeyed [of "str ''#X= ;abc''" "str ''#X''" "str '' ;abc''"] h2 by blast
  moreover have "parse_tool_call (str ''#Memo= note '') =
        Inr (drop 1 (str ''#Memo''),
             if strip (takeWhile (\<lambda>c. c \<noteq> 0x3B) (str '' note'')) = [] then [(str ''query'', str '' note'')]
             else [(str ''content'', strip (takeWhile (\<lambda>c. c \<noteq> 0x3B) (str '' note'')))])"
    using parse_tool_call_unkeyed [of "str ''#Memo= note ''" "str ''#Memo''" "str '' note''"] h3 by blast
  ultimately show ?thesis
    by (simp add: str_def strip_def strip_where_def is_space_def)
qed

text \<open>
  The segment \<open>#Search=weather\<close> has no \<open>key=value\<close> pair, and its one parameter is
  \<open>content\<close>, not \<open>query\<close>.
\<close>

theorem parse_tool_call_query_counterexample:
  "0x3D \<notin> set (str ''weather'') \<and>
   parse_tool_call (str ''#Search=weather'') = Inr (str ''Search'', [(str ''content'', str ''weather'')]) \<and>
   map_of (snd (projr (parse_tool_call (str ''#Search=weather'')))) (str ''query'') = None"
  by (simp add: parse_tool_call_def str_def split1_def strip_def strip_where_def is_space_def Let_def)

subsection \<open>Sequential dispatch\<close>

lemma dispatch_tool_error:
  "fst (dispatch_tool ex n ps w) = Inl e \<Longrightarrow> e = BaseException"
  by (simp add: dispatch_tool_def Let_def
        split: option.splits if_splits prod.splits tool_outcome.splits)

lemma dispatch_in_sequence_Cons:
  "dispatch_in_sequence ex ((n, ps) # calls) w =
     (fst (dispatch_tool ex n ps w) #
        fst (dispatch_in_sequence ex calls (snd (dispatch_tool ex n ps w))),
      snd (dispatch_in_sequence ex calls (snd (dispatch_tool ex n ps w))))"
  by (simp split: prod.splits)

lemma run_tool_calls_sequence:
  "run_tool_calls ex u g tcs acc w =
     (if Inl BaseException \<in> set (fst (dispatch_in_sequence ex
                      (map (\<lambda>(n, ps). (n, inject_context u g ps))
                         (concat (map (\<lambda>t. case parse_tool_call t of Inl e \<Rightarrow> [] | Inr c \<Rightarrow> [c]) tcs))) w))
      then Inl BaseException
      else Inr (acc @ map projr (fst (dispatch_in_sequence ex
                      (map (\<lambda>(n, ps). (n, inject_context u g ps))
                         (concat (map (\<lambda>t. case parse_tool_call t of Inl e \<Rightarrow> [] | Inr c \<Rightarrow> [c]) tcs))) w)),
          snd (dispatch_in_sequence ex
                      (map (\<lambda>(n, ps). (n, inject_context u g ps))
                         (concat (map (\<lambda>t. case parse_tool_call t of Inl e \<Rightarrow> [] | Inr c \<Rightarrow> [c]) tcs))) w)))"
proof (induction tcs arbitrary: acc w)
  case Nil
  show ?case by simp
next
  case (Cons t tcs)
  obtain n ps where p: "parse_tool_call t = Inr (n, ps)"
    using parse_tool_call_returns by (metis surj_pair)
  obtain r w1 where d: "dispatch_tool ex n (inject_context u g ps) w = (r, w1)"
    by (cases "dispatch_tool ex n (inject_context u g ps) w")
  show ?case
  proof (cases r)
    case (Inl e)
    have "e = BaseException"
      using dispatch_tool_error [of ex n "inject_context u g ps" w e] d Inl by simp
    then show ?thesis
      using p d Inl
      by (simp add: dispatch_in_sequence_Cons del: dispatch_in_sequence.simps(2))
  next
    case (Inr x)
    show ?thesis
      using p d Inr Cons.IH [of "acc @ [x]" w1]
      by (simp add: dispatch_in_sequence_Cons del: dispatch_in_sequence.simps(2))
  qed
qed



lemma execute_anloop_sequence_run:
  assumes "loop_header anloop_string = Some (loop_content, nr)"
      and "calls = map (\<lambda>(n, ps). (n, inject_context user_id group_id ps))
                     (parsed_calls anloop_string)"
  shows "execute_anloop_sequence ex anloop_string user_id group_id w =
           (if Inl BaseException \<in> set (fst (dispatch_in_sequence ex calls w))
            then Inl BaseException
            else Inr ((map projr (fst (dispatch_in_sequence ex calls w)), nr),
                      snd (dispatch_in_sequence ex calls w)))"
  using assms
  by (simp add: execute_anloop_sequence_def parsed_calls_def run_tool_calls_sequence)



lemma demo_dispatch:
  "dispatch_tool demo_executor (str ''fail'') [(str ''content'', c), (str ''user_id'', str ''42'')] w
     = (Inr \<lparr>success = False, result = None,
             error = Some (msg_internal_error (str ''fail'') (str ''boom''))\<rparr>, w + 1)"
  "dispatch_tool demo_executor (str ''count'') [(str ''content'', c), (str ''user_id'', str ''42'')] w
     = (Inr \<lparr>success = True, result = Some (str ''ok''), error = None\<rparr>, w + 1)"
  "dispatch_tool demo_executor (str ''cancel'') [(str ''content'', c), (str ''user_id'', str ''42'')] w
     = (Inl BaseException, w + 1)"
  by (simp_all add: dispatch_tool_def demo_executor_def Let_def str_def)



subsection \<open>The no-response marker\<close>

lemma sublist_strip_where: "sublist (strip_where P s) s"
proof -
  have "sublist (rev (dropWhile P (rev (dropWhile P s)))) (dropWhile P s)"
    by (simp add: sublist_rev_left)
  then show ?thesis
    unfolding strip_where_def using sublist_dropWhile sublist_order.order.trans by blast
qed

lemma strip_where_keeps_head:
  assumes "\<not> P c"
  shows "\<exists>zs. strip_where P (c # cs) = c # zs"
  using assms by (simp add: strip_where_def dropWhile_append3)

lemma split_on_sublist: "p \<in> set (split_on sep s) \<Longrightarrow> sublist p s"
proof (induction s arbitrary: p)
  case Nil
  then show ?case by simp
next
  case (Cons a s)
  show ?case
  proof (cases "a = sep")
    case True
    with Cons show ?thesis by (auto simp: sublist_Cons_right)
  next
    case False
    have f: "split_on sep s = takeWhile (\<lambda>c. c \<noteq> sep) s # tl (split_on sep s)"
      by (rule split_on_first)
    with False Cons.prems have "p = a # takeWhile (\<lambda>c. c \<noteq> sep) s \<or> p \<in> set (tl (split_on sep s))"
      by (metis (no_types, lifting) list.simps(5) set_ConsD split_on.simps(2))
    then show ?thesis
    proof
      assume "p = a # takeWhile (\<lambda>c. c \<noteq> sep) s"
      then have "prefix p (a # s)" by (simp add: takeWhile_is_prefix)
      then show ?thesis by (rule prefix_imp_sublist)
    next
      assume "p \<in> set (tl (split_on sep s))"
      then have "p \<in> set (split_on sep s)" using f by (metis list.set_intros(2))
      then have "sublist p s" by (rule Cons.IH)
      then show ?thesis by (simp add: sublist_Cons_right)
    qed
  qed
qed

lemma parse_tool_call_name:
  "parse_tool_call t = Inr (n, ps) \<Longrightarrow> n = drop 1 (takeWhile (\<lambda>c. c \<noteq> 0x3D) (strip t))"
proof (cases "0x3D \<in> set (strip t)")
  case True
  assume "parse_tool_call t = Inr (n, ps)"
  with True show ?thesis
    by (auto simp: parse_tool_call_def split1_def Let_def split: sum.splits)
next
  case False
  then have tw: "takeWhile (\<lambda>c. c \<noteq> 0x3D) (strip t) = strip t"
    by simp metis
  assume "parse_tool_call t = Inr (n, ps)"
  with False have n: "n = drop 1 (strip t)"
    by (auto simp: parse_tool_call_def split1_def Let_def)
  show ?thesis by (simp only: n tw)
qed

lemma call_name_in_segment:
  assumes "startswith tc (str ''#'')" and "parse_tool_call (strip tc) = Inr (n, ps)"
  shows "sublist (0x23 # n) tc"
proof -
  obtain rest where tc: "tc = 0x23 # rest"
    using assms(1) by (cases tc) (auto simp: startswith_def str_def)
  have ns: "\<not> is_space 0x23" by (simp add: is_space_def)
  obtain zs where t: "strip tc = 0x23 # zs"
    using strip_where_keeps_head [of is_space "0x23", OF ns] tc by (auto simp: strip_def)
  obtain zs' where t': "strip (strip tc) = 0x23 # zs'"
    using strip_where_keeps_head [of is_space "0x23", OF ns] t by (auto simp: strip_def)
  have "n = drop 1 (takeWhile (\<lambda>c. c \<noteq> 0x3D) (strip (strip tc)))"
    using assms(2) by (rule parse_tool_call_name)
  then have "0x23 # n = takeWhile (\<lambda>c. c \<noteq> 0x3D) (strip (strip tc))"
    using t' by simp
  then have "sublist (0x23 # n) (strip (strip tc))" by simp
  moreover have "sublist (strip (strip tc)) (strip tc)" "sublist (strip tc) tc"
    by (simp_all add: strip_def sublist_strip_where)
  ultimately show ?thesis
    using sublist_order.order.trans by blast
qed

lemma parsed_names_in_content:
  assumes "(n, ps) \<in> set (concat (map (\<lambda>tool_str. case parse_tool_call tool_str of
                                     Inl e \<Rightarrow> [] | Inr c \<Rightarrow> [c]) (tool_calls_str content)))"
  shows "sublist (0x23 # n) content"
proof -
  from assms obtain tc where tc: "tc \<in> set (split_on 0x3B content)" "startswith tc (str ''#'')"
      and p: "parse_tool_call (strip tc) = Inr (n, ps)"
    by (auto simp: tool_calls_str_def split: sum.splits)
  have "sublist (0x23 # n) tc" using tc(2) p by (rule call_name_in_segment)
  moreover have "sublist tc content" using tc(1) by (rule split_on_sublist)
  ultimately show ?thesis using sublist_order.order.trans by blast
qed

lemma replace_first_prefix: "prefix old s \<Longrightarrow> old \<noteq> [] \<Longrightarrow> replace_first old [] s = drop (length old) s"
  by (cases s) auto

text \<open>
  Claim C8, as the code has it. Let \<open>g\<close> be the content of the extracted block. When the
  stripped content starts with \<open>#NotResp\<close>, the sequence is a background one (it returns
  with the flag set, unless a dispatch raises an exception that is not an \<open>Exception\<close>
  and the sequence is aborted) and that
  leading occurrence is removed before the content is split into calls; only the first
  occurrence is removed, so no parsed call name starts with \<open>NotResp\<close> provided
  \<open>#NotResp\<close> does not occur again in the rest of the content. When the stripped content
  does not start with \<open>#NotResp\<close>, the sequence is not a background one, wherever else the
  marker may stand.
\<close>

theorem not_resp_marker_leading:
  assumes "loops_search anloop_string = Some g"
  shows "(startswith (strip g) (str ''#NotResp'') \<longrightarrow>
            ((\<exists>results w'. execute_anloop_sequence ex anloop_string user_id group_id w =
                             Inr ((results, True), w')) \<or>
             execute_anloop_sequence ex anloop_string user_id group_id w = Inl BaseException \<and>
             Inl BaseException \<in>
               set (fst (dispatch_in_sequence ex
                           (map (\<lambda>(n, ps). (n, inject_context user_id group_id ps))
                              (parsed_calls anloop_string)) w))) \<and>
            loop_header anloop_string =
              Some (strip_chars (str ''; '') (drop 8 (strip g)), True) \<and>
            (\<not> sublist (str ''#NotResp'') (drop 8 (strip g)) \<longrightarrow>
               (\<forall>c \<in> set (parsed_calls anloop_string). \<not> prefix (str ''NotResp'') (fst c)))) \<and>
         (\<not> startswith (strip g) (str ''#NotResp'') \<longrightarrow>
            ((\<exists>results w'. execute_anloop_sequence ex anloop_string user_id group_id w =
                             Inr ((results, False), w')) \<or>
             execute_anloop_sequence ex anloop_string user_id group_id w = Inl BaseException \<and>
             Inl BaseException \<in>
               set (fst (dispatch_in_sequence ex
                           (map (\<lambda>(n, ps). (n, inject_context user_id group_id ps))
                              (parsed_calls anloop_string)) w))))"
proof (intro conjI impI)
  assume a: "startswith (strip g) (str ''#NotResp'')"
  have len: "length (str ''#NotResp'') = 8" "str ''#NotResp'' \<noteq> []"
    by (simp_all add: str_def)
  have r: "replace_first (str ''#NotResp'') [] (strip g) = drop 8 (strip g)"
    using a replace_first_prefix [of "str ''#NotResp''" "strip g"] len
    by (simp add: startswith_def)
  show h: "loop_header anloop_string = Some (strip_chars (str ''; '') (drop 8 (strip g)), True)"
    using assms a r by (simp add: loop_header_def Let_def)
  show "(\<exists>results w'. execute_anloop_sequence ex anloop_string user_id group_id w =
                             Inr ((results, True), w')) \<or>
             execute_anloop_sequence ex anloop_string user_id group_id w = Inl BaseException \<and>
             Inl BaseException \<in>
               set (fst (dispatch_in_sequence ex
                           (map (\<lambda>(n, ps). (n, inject_context user_id group_id ps))
                              (parsed_calls anloop_string)) w))"
    using execute_anloop_sequence_run [OF h refl, of ex user_id group_id w] by simp
  show "\<forall>c \<in> set (parsed_calls anloop_string). \<not> prefix (str ''NotResp'') (fst c)"
    if ns: "\<not> sublist (str ''#NotResp'') (drop 8 (strip g))"
  proof
    fix c assume c: "c \<in> set (parsed_calls anloop_string)"
    obtain n ps where np: "c = (n, ps)" by (cases c)
    have "sublist (0x23 # n) (strip_chars (str ''; '') (drop 8 (strip g)))"
      using c np h parsed_names_in_content [of n ps] by (simp add: parsed_calls_def)
    moreover have "sublist (strip_chars (str ''; '') (drop 8 (strip g))) (drop 8 (strip g))"
      by (simp add: strip_chars_def sublist_strip_where)
    ultimately have s: "sublist (0x23 # n) (drop 8 (strip g))"
      using sublist_order.order.trans by blast
    show "\<not> prefix (str ''NotResp'') (fst c)"
    proof
      assume "prefix (str ''NotResp'') (fst c)"
      then have "prefix (str ''#NotResp'') (0x23 # n)" using np by (simp add: str_def)
      then have "sublist (str ''#NotResp'') (0x23 # n)" by (rule prefix_imp_sublist)
      with s ns show False using sublist_order.order.trans by blast
    qed
  qed
next
  assume "\<not> startswith (strip g) (str ''#NotResp'')"
  then have "loop_header anloop_string = Some (strip g, False)"
    using assms by (simp add: loop_header_def Let_def)
  then have h': "loop_header anloop_string = Some (strip g, False)" .
  show "(\<exists>results w'. execute_anloop_sequence ex anloop_string user_id group_id w =
                             Inr ((results, False), w')) \<or>
             execute_anloop_sequence ex anloop_string user_id group_id w = Inl BaseException \<and>
             Inl BaseException \<in>
               set (fst (dispatch_in_sequence ex
                           (map (\<lambda>(n, ps). (n, inject_context user_id group_id ps))
                              (parsed_calls anloop_string)) w))"
    using execute_anloop_sequence_run [OF h' refl, of ex user_id group_id w] by simp
qed

theorem not_resp_marker_leading_witness:
  "(\<exists>results w'. execute_anloop_sequence demo_executor (str ''<Loops>#NotResp;#count=a</Loops>'')
                     (str ''42'') None 0 = Inr ((results, True), w')) \<and>
   list_all (\<lambda>c. \<not> prefix (str ''NotResp'') (fst c))
     (parsed_calls (str ''<Loops>#NotResp;#count=a</Loops>'')) \<and>
   (\<exists>results w'. execute_anloop_sequence demo_executor (str ''<Loops>#count=a;#NotResp</Loops>'')
                     (str ''42'') None 0 = Inr ((results, False), w'))"
proof -
  have g1: "loops_search (str ''<Loops>#NotResp;#count=a</Loops>'') = Some (str ''#NotResp;#count=a'')"
    by (simp add: loops_search_def str_def)
  have g2: "loops_search (str ''<Loops>#count=a;#NotResp</Loops>'') = Some (str ''#count=a;#NotResp'')"
    by (simp add: loops_search_def str_def)
  have s1: "startswith (strip (str ''#NotResp;#count=a'')) (str ''#NotResp'')"
    by (simp add: startswith_def str_def strip_def strip_where_def is_space_def)
  have n1: "\<not> sublist (str ''#NotResp'') (drop 8 (strip (str ''#NotResp;#count=a'')))"
    by (simp add: str_def strip_def strip_where_def is_space_def sublist_Cons_right)
  have s2: "\<not> startswith (strip (str ''#count=a;#NotResp'')) (str ''#NotResp'')"
    by (simp add: startswith_def str_def strip_def strip_where_def is_space_def)
  have p1: "parsed_calls (str ''<Loops>#NotResp;#count=a</Loops>'') =
              [(str ''count'', [(str ''content'', str ''a'')])]"
    by (simp add: parsed_calls_def loop_header_def loops_search_def tool_calls_str_def
          startswith_def parse_tool_call_def str_def split1_def strip_def strip_chars_def
          strip_where_def is_space_def Let_def)
  have p2: "parsed_calls (str ''<Loops>#count=a;#NotResp</Loops>'') =
              [(str ''count'', [(str ''content'', str ''a'')]), (str ''NotResp'', [])]"
    by (simp add: parsed_calls_def loop_header_def loops_search_def tool_calls_str_def
          startswith_def parse_tool_call_def str_def split1_def strip_def strip_chars_def
          strip_where_def is_space_def Let_def)
  have i1: "inject_context (str ''42'') None [(str ''content'', str ''a'')] =
              [(str ''content'', str ''a''), (str ''user_id'', str ''42'')]"
       "inject_context (str ''42'') None [] = [(str ''user_id'', str ''42'')]"
    by (simp_all add: inject_context_def) (simp add: str_def)
  have n1': "Inl BaseException \<notin>
               set (fst (dispatch_in_sequence demo_executor
                      (map (\<lambda>(n, ps). (n, inject_context (str ''42'') None ps))
                         (parsed_calls (str ''<Loops>#NotResp;#count=a</Loops>''))) 0))"
    unfolding p1 by (simp add: i1 demo_dispatch)
  have n2': "Inl BaseException \<notin>
               set (fst (dispatch_in_sequence demo_executor
                      (map (\<lambda>(n, ps). (n, inject_context (str ''42'') None ps))
                         (parsed_calls (str ''<Loops>#count=a;#NotResp</Loops>''))) 0))"
    unfolding p2
    by (simp add: i1 demo_dispatch)
       (simp add: dispatch_tool_def demo_executor_def execute_unknown_def Let_def str_def)
  note a = not_resp_marker_leading [OF g1, of demo_executor "str ''42''" None 0]
  note b = not_resp_marker_leading [OF g2, of demo_executor "str ''42''" None 0]
  have "\<exists>results w'. execute_anloop_sequence demo_executor (str ''<Loops>#NotResp;#count=a</Loops>'')
                     (str ''42'') None 0 = Inr ((results, True), w')"
    using a [THEN conjunct1, THEN mp, OF s1, THEN conjunct1] n1' by blast
  moreover have "\<forall>c \<in> set (parsed_calls (str ''<Loops>#NotResp;#count=a</Loops>'')).
                   \<not> prefix (str ''NotResp'') (fst c)"
    using a [THEN conjunct1, THEN mp, OF s1, THEN conjunct2, THEN conjunct2, THEN mp, OF n1] .
  moreover have "\<exists>results w'. execute_anloop_sequence demo_executor (str ''<Loops>#count=a;#NotResp</Loops>'')
                     (str ''42'') None 0 = Inr ((results, False), w')"
    using b [THEN conjunct2, THEN mp, OF s2] n2' by blast
  ultimately show ?thesis by (simp add: list_all_iff)
qed

text \<open>
  The block \<open>#NotResp;#NotResp\<close> begins with the marker, and its second occurrence is
  parsed as a call named \<open>NotResp\<close>.
\<close>

theorem not_resp_marker_counterexample:
  "startswith (strip (the (loops_search (str ''<Loops>#NotResp;#NotResp</Loops>'')))) (str ''#NotResp'') \<and>
   loop_header (str ''<Loops>#NotResp;#NotResp</Loops>'') = Some (str ''#NotResp'', True) \<and>
   parsed_calls (str ''<Loops>#NotResp;#NotResp</Loops>'') = [(str ''NotResp'', [])]"
  by (simp add: parsed_calls_def loop_header_def loops_search_def tool_calls_str_def startswith_def
        parse_tool_call_def str_def split1_def strip_def strip_chars_def strip_where_def is_space_def Let_def)

subsection \<open>Awaiting pointers\<close>

lemma configure_pointer_cleared:
  "pending_user_tasks (snd (configure user_id p st)) user_id = None"
  by (cases p)
     (auto simp: configure_def update_pending_task_with_message_def
        update_pending_task_with_notebook_def Let_def split: option.splits)

lemma configure_no_pending:
  assumes "pending_user_tasks st user_id = None"
  shows "configure user_id p st = (msg_no_pending, st)"
proof -
  have "(pending_user_tasks st)(user_id := None) = pending_user_tasks st"
    using assms by (simp add: fun_upd_idem)
  then show ?thesis
    using assms
    by (cases p)
       (simp_all add: configure_def update_pending_task_with_message_def
          update_pending_task_with_notebook_def)
qed

subsection \<open>Configuring without a pending job\<close>

text \<open>
  Claim C9. For a session with no awaiting job, \<open>update_pending_task_with_message\<close> and
  \<open>update_pending_task_with_notebook\<close> return the string that asks to use \<open>#BingMe\<close>
  first, as an ordinary return value, and leave the whole scheduler state, every
  scheduled job included, as it was.
\<close>

theorem configure_without_pending_job:
  assumes "pending_user_tasks st user_id = None"
  shows "update_pending_task_with_message user_id message st = (msg_no_pending, st) \<and>
         update_pending_task_with_notebook user_id notebook_name st = (msg_no_pending, st)"
proof -
  have "(pending_user_tasks st)(user_id := None) = pending_user_tasks st"
    using assms by (simp add: fun_upd_idem)
  then show ?thesis
    using assms
    by (simp add: update_pending_task_with_message_def update_pending_task_with_notebook_def)
qed

theorem configure_without_pending_job_witness:
  "update_pending_task_with_message (str ''42'') (str ''hello'')
     (init_scheduler Map.empty :: (int, unit) scheduler) =
     (msg_no_pending, init_scheduler Map.empty) \<and>
   update_pending_task_with_notebook (str ''42'') (str ''notes'')
     (init_scheduler Map.empty :: (int, unit) scheduler) =
     (msg_no_pending, init_scheduler Map.empty)"
proof -
  have "pending_user_tasks (init_scheduler Map.empty :: (int, unit) scheduler) (str ''42'') = None"
    by (simp add: init_scheduler_def)
  then show ?thesis
    using configure_without_pending_job [of "init_scheduler Map.empty :: (int, unit) scheduler"
        "str ''42''" "str ''hello''" "str ''notes''"]
    by simp
qed

subsection \<open>The awaiting pointer is cleared first\<close>

text \<open>
  Claim C10. After any \<open>Configure\<close> call the session has no awaiting pointer, so a
  repeated call returns the no-pending-job string and changes nothing. In particular,
  when the call fails because the job is gone, or because no send callback is registered,
  the state it leaves is the old one with the pointer removed.
\<close>

theorem configure_clears_pointer_first:
  "pending_user_tasks (snd (configure user_id p st)) user_id = None \<and>
   configure user_id p' (snd (configure user_id p st)) =
     (msg_no_pending, snd (configure user_id p st)) \<and>
   (pending_user_tasks st user_id = Some jid \<and> jid \<noteq> [] \<and> apscheduler st jid = None \<longrightarrow>
      update_pending_task_with_message user_id message st =
        (msg_job_gone, st\<lparr>pending_user_tasks := (pending_user_tasks st)(user_id := None)\<rparr>) \<and>
      update_pending_task_with_notebook user_id notebook_name st =
        (msg_job_gone, st\<lparr>pending_user_tasks := (pending_user_tasks st)(user_id := None)\<rparr>)) \<and>
   (pending_user_tasks st user_id = Some jid \<and> jid \<noteq> [] \<and> apscheduler st jid = Some j \<and>
    send_message_callback st = None \<longrightarrow>
      update_pending_task_with_message user_id message st =
        (msg_no_callback, st\<lparr>pending_user_tasks := (pending_user_tasks st)(user_id := None)\<rparr>))"
  by (simp add: configure_pointer_cleared configure_no_pending
        update_pending_task_with_message_def update_pending_task_with_notebook_def Let_def)

theorem configure_clears_pointer_first_witness:
  "update_pending_task_with_message (str ''42'') (str ''hello'') stale_scheduler =
     (msg_job_gone, init_scheduler Map.empty) \<and>
   configure (str ''42'') (Message (str ''hello''))
     (snd (configure (str ''42'') (Message (str ''hello'')) stale_scheduler)) =
     (msg_no_pending, snd (configure (str ''42'') (Message (str ''hello'')) stale_scheduler))"
proof -
  have h: "pending_user_tasks stale_scheduler (str ''42'') = Some (str ''pending_42_100'') \<and>
           str ''pending_42_100'' \<noteq> [] \<and>
           apscheduler stale_scheduler (str ''pending_42_100'') = None"
    by (simp add: stale_scheduler_def init_scheduler_def str_def)
  have e: "stale_scheduler\<lparr>pending_user_tasks :=
             (pending_user_tasks stale_scheduler)(str ''42'' := None)\<rparr> = init_scheduler Map.empty"
    by (simp add: stale_scheduler_def init_scheduler_def)
  note t = configure_clears_pointer_first [of "str ''42''" "Message (str ''hello'')" stale_scheduler
      "Message (str ''hello'')" "str ''pending_42_100''" "str ''hello''" "str ''notes''" undefined]
  from t h have "update_pending_task_with_message (str ''42'') (str ''hello'') stale_scheduler =
        (msg_job_gone, stale_scheduler\<lparr>pending_user_tasks :=
             (pending_user_tasks stale_scheduler)(str ''42'' := None)\<rparr>)"
    by blast
  with e t show ?thesis by simp
qed

subsection \<open>Placeholder jobs on a started scheduler\<close>

text \<open>
  Claim C5, on the scheduler as the bot runs it. For user 42, the first
  \<open>add_bing_me_task\<close> raises \<open>ValueError\<close>, and so does the second: no placeholder
  job is stored and no pointer is written. A configuration that follows finds no pointer
  and rewrites nothing, and the store holds no job that could fire.
\<close>

theorem add_bing_me_task_started_raises:
  "add_bing_me_task demo_lib (str ''42'') 100 live_scheduler = Inl ValueError \<and>
   add_bing_me_task demo_lib (str ''42'') 200 live_scheduler = Inl ValueError \<and>
   configure (str ''42'') (Message (str ''hello'')) live_scheduler =
     (msg_no_pending, live_scheduler) \<and>
   apscheduler live_scheduler = Map.empty \<and>
   pending_user_tasks live_scheduler = Map.empty"
  by (simp add: add_bing_me_task_def add_job_def configure_def
        update_pending_task_with_message_def live_scheduler_def demo_scheduler_def
        register_send_message_callback_def init_scheduler_def Let_def)

subsection \<open>The heartbeat watchdog\<close>

lemma monitor_iteration_keeps:
  "heartbeat_timeout (monitor_iteration p st) = heartbeat_timeout st \<and>
   running (monitor_iteration p st) = running st"
  by (simp add: monitor_iteration_def update_heartbeat_def Let_def)

lemma monitor_gocq_process_keeps:
  "heartbeat_timeout (monitor_gocq_process evs st) = heartbeat_timeout st \<and>
   running (monitor_gocq_process evs st) = running st"
proof (induction evs arbitrary: st)
  case Nil
  show ?case by simp
next
  case (Cons e evs)
  show ?case
  proof (cases e)
    case (Heartbeat t)
    then show ?thesis using Cons.IH [of "update_heartbeat t st"]
      by (simp add: update_heartbeat_def)
  next
    case (Poll p)
    then show ?thesis
      using Cons.IH [of "monitor_iteration p st"] Cons.IH [of st] monitor_iteration_keeps [of p st]
      by simp
  qed
qed

lemma monitor_gocq_process_append:
  "monitor_gocq_process (xs @ ys) st = monitor_gocq_process ys (monitor_gocq_process xs st)"
proof (induction xs arbitrary: st)
  case Nil
  show ?case by simp
next
  case (Cons e xs)
  show ?case by (cases e) (simp_all add: Cons.IH)
qed

lemma on_time_no_calls:
  "heartbeats_on_time (heartbeat_timeout st) (last_heartbeat_time st) evs \<Longrightarrow>
   process_manager (monitor_gocq_process evs st) = process_manager st"
proof (induction evs arbitrary: st)
  case Nil
  show ?case by simp
next
  case (Cons e evs)
  show ?case
  proof (cases e)
    case (Heartbeat t)
    with Cons.prems have "heartbeats_on_time (heartbeat_timeout (update_heartbeat t st))
        (last_heartbeat_time (update_heartbeat t st)) evs"
      by (simp add: update_heartbeat_def)
    from Cons.IH [OF this] Heartbeat show ?thesis by (simp add: update_heartbeat_def)
  next
    case (Poll p)
    with Cons.prems have le: "check_time p - last_heartbeat_time st \<le> heartbeat_timeout st"
      and rest: "heartbeats_on_time (heartbeat_timeout st) (last_heartbeat_time st) evs"
      by simp_all
    from le have same: "monitor_iteration p st = st" by (simp add: monitor_iteration_def)
    from Cons.IH [OF rest] Poll same show ?thesis by simp
  qed
qed

text \<open>
  Claim C4, as the code has it: what counts is what a check sees, not how long the
  silence was. While at every check the latest heartbeat is at most the timeout old, the
  process manager is never called. When, after such a run, a check finds the latest
  heartbeat older than the timeout and the restart succeeds, that pass calls
  \<open>stop()\<close> then \<open>start()\<close>, once each, and sets the heartbeat time to the clock read
  after the restart; and if from that new baseline on the heartbeats are on time again
  (the next check comes 20 seconds after the restart), the whole run has made exactly
  those two calls.
\<close>

theorem watchdog_single_restart:
  "(heartbeats_on_time (heartbeat_timeout st) (last_heartbeat_time st) evs \<longrightarrow>
      process_manager (monitor_gocq_process evs st) = process_manager st) \<and>
   (running st \<and>
    heartbeats_on_time (heartbeat_timeout st) (last_heartbeat_time st) before \<and>
    check_time p - last_heartbeat_time (monitor_gocq_process before st) > heartbeat_timeout st \<and>
    start_returns p \<and>
    heartbeats_on_time (heartbeat_timeout st) (restart_time p) after \<longrightarrow>
      process_manager (monitor_gocq_process (before @ [Poll p]) st) =
        process_manager st @ [Stop, Start] \<and>
      last_heartbeat_time (monitor_gocq_process (before @ [Poll p]) st) = restart_time p \<and>
      process_manager (monitor_gocq_process (before @ Poll p # after) st) =
        process_manager st @ [Stop, Start])"
proof (intro conjI impI)
  assume "heartbeats_on_time (heartbeat_timeout st) (last_heartbeat_time st) evs"
  then show "process_manager (monitor_gocq_process evs st) = process_manager st"
    by (rule on_time_no_calls)
next
  assume h: "running st \<and>
    heartbeats_on_time (heartbeat_timeout st) (last_heartbeat_time st) before \<and>
    check_time p - last_heartbeat_time (monitor_gocq_process before st) > heartbeat_timeout st \<and>
    start_returns p \<and>
    heartbeats_on_time (heartbeat_timeout st) (restart_time p) after"
  let ?b = "monitor_gocq_process before st"
  let ?r = "monitor_iteration p ?b"
  have keep: "heartbeat_timeout ?b = heartbeat_timeout st" "running ?b"
    using monitor_gocq_process_keeps [of before st] h by simp_all
  have calls_b: "process_manager ?b = process_manager st"
    using h on_time_no_calls by blast
  have gap: "check_time p - last_heartbeat_time ?b > heartbeat_timeout ?b"
    using h keep by simp
  have r_calls: "process_manager ?r = process_manager st @ [Stop, Start]"
    using gap h calls_b by (simp add: monitor_iteration_def update_heartbeat_def Let_def)
  have r_last: "last_heartbeat_time ?r = restart_time p"
    using gap h by (simp add: monitor_iteration_def update_heartbeat_def Let_def)
  have r_timeout: "heartbeat_timeout ?r = heartbeat_timeout st"
    using monitor_iteration_keeps [of p ?b] keep by simp
  have step: "monitor_gocq_process (before @ [Poll p]) st = ?r"
    using keep by (simp add: monitor_gocq_process_append)
  show "process_manager (monitor_gocq_process (before @ [Poll p]) st) =
        process_manager st @ [Stop, Start]"
    using step r_calls by simp
  show "last_heartbeat_time (monitor_gocq_process (before @ [Poll p]) st) = restart_time p"
    using step r_last by simp
  have "monitor_gocq_process (before @ Poll p # after) st = monitor_gocq_process after ?r"
    using keep by (simp add: monitor_gocq_process_append)
  moreover have "heartbeats_on_time (heartbeat_timeout ?r) (last_heartbeat_time ?r) after"
    using h r_last r_timeout by simp
  then have "process_manager (monitor_gocq_process after ?r) = process_manager ?r"
    by (rule on_time_no_calls)
  ultimately show "process_manager (monitor_gocq_process (before @ Poll p # after) st) =
        process_manager st @ [Stop, Start]"
    using r_calls by simp
qed

theorem watchdog_single_restart_witness:
  "process_manager (monitor_gocq_process quiet_run started_scheduler) = [] \<and>
   process_manager (monitor_gocq_process (quiet_run @ [Poll late_poll]) started_scheduler) =
     [Stop, Start] \<and>
   last_heartbeat_time (monitor_gocq_process (quiet_run @ [Poll late_poll]) started_scheduler) =
     199 \<and>
   process_manager
     (monitor_gocq_process (quiet_run @ Poll late_poll # recovered_run) started_scheduler) =
     [Stop, Start]"
proof -
  have s: "heartbeat_timeout started_scheduler = 100" "last_heartbeat_time started_scheduler = 0"
      "running started_scheduler" "process_manager started_scheduler = []"
    by (simp_all add: started_scheduler_def init_scheduler_def)
  have q: "heartbeats_on_time (heartbeat_timeout started_scheduler)
             (last_heartbeat_time started_scheduler) quiet_run"
    by (simp add: s quiet_run_def)
  have l: "last_heartbeat_time (monitor_gocq_process quiet_run started_scheduler) = 95"
    by (simp add: quiet_run_def s update_heartbeat_def monitor_iteration_def)
  have g: "check_time late_poll -
             last_heartbeat_time (monitor_gocq_process quiet_run started_scheduler) >
           heartbeat_timeout started_scheduler"
    by (simp add: l s late_poll_def)
  have r: "start_returns late_poll \<and>
           heartbeats_on_time (heartbeat_timeout started_scheduler) (restart_time late_poll)
             recovered_run"
    by (simp add: s late_poll_def recovered_run_def)
  have hyp: "running started_scheduler \<and>
    heartbeats_on_time (heartbeat_timeout started_scheduler)
      (last_heartbeat_time started_scheduler) quiet_run \<and>
    check_time late_poll - last_heartbeat_time (monitor_gocq_process quiet_run started_scheduler)
      > heartbeat_timeout started_scheduler \<and>
    start_returns late_poll \<and>
    heartbeats_on_time (heartbeat_timeout started_scheduler) (restart_time late_poll)
      recovered_run"
    by (intro conjI s(3) q g r [THEN conjunct1] r [THEN conjunct2])
  note t = watchdog_single_restart [of started_scheduler quiet_run quiet_run late_poll
      recovered_run]
  note t1 = t [THEN conjunct1, THEN mp, OF q]
  note t2 = t [THEN conjunct2, THEN mp, OF hyp]
  have rt: "restart_time late_poll = 199" by (simp add: late_poll_def)
  show ?thesis
    using t1 t2 unfolding s(4) rt by simp
qed

text \<open>
  A silence of 101 seconds, from the heartbeat at 95 to the one at 196, with the loop
  checking every 10 seconds: no check sees a heartbeat older than 100 seconds, and the
  process manager is never called.
\<close>

theorem watchdog_unseen_gap_counterexample:
  "process_manager (monitor_gocq_process unseen_gap_run started_scheduler) = [] \<and>
   (196 :: real) - 95 > heartbeat_timeout started_scheduler"
  by (simp add: unseen_gap_run_def check_at_def started_scheduler_def init_scheduler_def
        update_heartbeat_def monitor_iteration_def)

subsection \<open>Thresholds of the session aggregator\<close>

lemma randint_range:
  "a \<le> b \<Longrightarrow> \<exists>r. randint a b rho = Inr r \<and> a \<le> r \<and> r \<le> b"
proof -
  assume ab: "a \<le> b"
  then have pos: "0 < nat (b - a + 1)" by simp
  have "rho mod nat (b - a + 1) < nat (b - a + 1)" using pos by (rule mod_less_divisor)
  then have "int (rho mod nat (b - a + 1)) \<le> b - a" by linarith
  then show ?thesis using ab by (simp add: randint_def)
qed

lemma randint_any:
  "a \<le> r \<Longrightarrow> r \<le> b \<Longrightarrow> randint a b (nat (r - a)) = Inr r"
  by (simp add: randint_def)

lemma cancel_fields:
  "group_message_buffers (cancel h st) = group_message_buffers st \<and>
   group_message_timers (cancel h st) = group_message_timers st \<and>
   handed_over (cancel h st) = handed_over st \<and>
   length (timer_tasks (cancel h st)) = length (timer_tasks st)"
  by (simp add: cancel_def split: task_state.splits)

lemma offer_flush:
  assumes "buf = (case group_message_buffers st group_id of None \<Rightarrow> [] | Some b \<Rightarrow> b)
                   @ [msg_event]"
      and "randint 0 GROUP_MESSAGE_BUFFER_THRESHOLD_RANDOM rho = Inr r"
      and "GROUP_MESSAGE_BUFFER_THRESHOLD_FIXED + r \<le> int (length buf)"
  shows "\<exists>st'. handle_message_event_group group_id msg_event rho st = Inr st' \<and>
           group_message_buffers st' group_id = None \<and>
           handed_over st' = handed_over st @ [(group_id, buf)] \<and>
           length (timer_tasks st') = length (timer_tasks st) \<and>
           group_message_timers st' = group_message_timers st"
proof -
  note b = assms(1)
  let ?st1 = "st\<lparr>group_message_buffers := (group_message_buffers st)(group_id \<mapsto> buf)\<rparr>"
  let ?st2 = "case group_message_timers ?st1 group_id of
                 None \<Rightarrow> ?st1
               | Some h \<Rightarrow> if task_done ?st1 h then ?st1 else cancel h ?st1"
  have f: "group_message_buffers ?st2 = (group_message_buffers st)(group_id \<mapsto> buf)"
       "group_message_timers ?st2 = group_message_timers st"
       "handed_over ?st2 = handed_over st"
       "length (timer_tasks ?st2) = length (timer_tasks st)"
    by (simp_all add: cancel_fields split: option.splits)
  have "buf \<noteq> []" unfolding b by simp
  then obtain e es where ne: "buf = e # es" by (meson neq_Nil_conv)
  have e: "handle_message_event_group group_id msg_event rho st =
             Inr (process_buffered_group_messages group_id ?st2)"
    using assms(2,3) unfolding b by (simp add: handle_message_event_group_def Let_def)
  have p: "process_buffered_group_messages group_id ?st2 =
             ?st2\<lparr>group_message_buffers := (group_message_buffers ?st2)(group_id := None),
                  handed_over := handed_over ?st2 @ [(group_id, buf)]\<rparr>"
    unfolding process_buffered_group_messages_def f(1) using ne by simp
  show ?thesis
    unfolding e p using f by simp
qed

lemma offer_timer:
  assumes "buf = (case group_message_buffers st group_id of None \<Rightarrow> [] | Some b \<Rightarrow> b)
                   @ [msg_event]"
      and "randint 0 GROUP_MESSAGE_BUFFER_THRESHOLD_RANDOM rho = Inr r"
      and "int (length buf) < GROUP_MESSAGE_BUFFER_THRESHOLD_FIXED + r"
  shows "\<exists>st'. handle_message_event_group group_id msg_event rho st = Inr st' \<and>
           group_message_buffers st' group_id = Some buf \<and>
           handed_over st' = handed_over st \<and>
           length (timer_tasks st') = Suc (length (timer_tasks st)) \<and>
           timer_tasks st' ! length (timer_tasks st) = Created \<and>
           group_message_timers st' group_id = Some (length (timer_tasks st))"
proof -
  note b = assms(1)
  let ?st1 = "st\<lparr>group_message_buffers := (group_message_buffers st)(group_id \<mapsto> buf)\<rparr>"
  let ?st2 = "case group_message_timers ?st1 group_id of
                 None \<Rightarrow> ?st1
               | Some h \<Rightarrow> if task_done ?st1 h then ?st1 else cancel h ?st1"
  have f: "group_message_buffers ?st2 = (group_message_buffers st)(group_id \<mapsto> buf)"
       "group_message_timers ?st2 = group_message_timers st"
       "handed_over ?st2 = handed_over st"
       "length (timer_tasks ?st2) = length (timer_tasks st)"
    by (simp_all add: cancel_fields split: option.splits)
  have nle: "\<not> GROUP_MESSAGE_BUFFER_THRESHOLD_FIXED + r \<le> int (length buf)"
    using assms(3) by simp
  have e: "handle_message_event_group group_id msg_event rho st =
             Inr (?st2\<lparr>timer_tasks := timer_tasks ?st2 @ [Created],
                        group_message_timers :=
                          (group_message_timers ?st2)(group_id \<mapsto> length (timer_tasks ?st2))\<rparr>)"
    unfolding handle_message_event_group_def Let_def assms(2) b [symmetric]
    using nle by (simp only: sum.case if_False)
  have n: "(timer_tasks ?st2 @ [Created]) ! length (timer_tasks st) = Created"
    unfolding f(4) [symmetric] by (rule nth_append_length)
  let ?S = "?st2\<lparr>timer_tasks := timer_tasks ?st2 @ [Created],
                   group_message_timers :=
                     (group_message_timers ?st2)(group_id \<mapsto> length (timer_tasks ?st2))\<rparr>"
  have g1: "group_message_buffers ?S group_id = Some buf" using f(1) by simp
  have g2: "handed_over ?S = handed_over st" using f(3) by simp
  have g3: "length (timer_tasks ?S) = Suc (length (timer_tasks st))" using f(4) by simp
  have g4: "timer_tasks ?S ! length (timer_tasks st) = Created" using n by simp
  have g5: "group_message_timers ?S group_id = Some (length (timer_tasks st))"
    using f(4) by simp
  show ?thesis
    by (rule exI [of _ ?S]) (intro conjI e g1 g2 g3 g4 g5)
qed

lemma expiry_step:
  assumes "h < length (timer_tasks st)" and "timer_tasks st ! h = Sleeping"
      and "group_message_buffers st group_id = Some pending"
      and "randint 2 GROUP_MESSAGE_BUFFER_THRESHOLD_RANDOM rho = Inr r"
      and "0 \<le> r"
  shows "start_group_message_timer group_id h rho st =
           (if GROUP_MESSAGE_BUFFER_THRESHOLD_FIXED + r \<le> int (length pending)
            then st\<lparr>group_message_buffers := (group_message_buffers st)(group_id := None),
                    handed_over := handed_over st @ [(group_id, pending)],
                    group_message_timers := (group_message_timers st)(group_id := None),
                    timer_tasks := (timer_tasks st)[h := Finished]\<rparr>
            else st\<lparr>group_message_timers := (group_message_timers st)(group_id := None),
                    timer_tasks := (timer_tasks st)[h := Finished]\<rparr>)"
proof (cases pending)
  case Nil
  then show ?thesis
    using assms
    by (simp add: start_group_message_timer_def GROUP_MESSAGE_BUFFER_THRESHOLD_FIXED_def)
next
  case (Cons e es)
  then show ?thesis
    using assms
    by (simp add: start_group_message_timer_def process_buffered_group_messages_def Let_def)
qed

text \<open>
  Claim C2. On an offer the threshold is the fixed part plus a fresh draw from 0 to the
  random part, and it decides: when the buffer, with the new event appended, has reached
  it, the whole buffer is handed over within the call and removed, no task is created and
  no handle is stored; when not, the buffer is kept and a new timer task is created and
  stored. When a sleeping timer runs out, the threshold is the fixed part plus a fresh
  draw from 2 to the random part, and it decides: at or above it the buffer is handed over
  and removed; below it the buffer is left as it is; either way the handle is removed and
  the task is finished. Every value of either range can be drawn.
\<close>

theorem aggregator_thresholds:
  assumes "buf = (case group_message_buffers st group_id of None \<Rightarrow> [] | Some b \<Rightarrow> b)
                   @ [msg_event]"
  shows
  "(\<exists>r st'. randint 0 GROUP_MESSAGE_BUFFER_THRESHOLD_RANDOM rho = Inr r \<and>
        0 \<le> r \<and> r \<le> GROUP_MESSAGE_BUFFER_THRESHOLD_RANDOM \<and>
        handle_message_event_group group_id msg_event rho st = Inr st' \<and>
        (GROUP_MESSAGE_BUFFER_THRESHOLD_FIXED + r \<le> int (length buf) \<longrightarrow>
           group_message_buffers st' group_id = None \<and>
           handed_over st' = handed_over st @ [(group_id, buf)] \<and>
           length (timer_tasks st') = length (timer_tasks st) \<and>
           group_message_timers st' = group_message_timers st) \<and>
        (int (length buf) < GROUP_MESSAGE_BUFFER_THRESHOLD_FIXED + r \<longrightarrow>
           group_message_buffers st' group_id = Some buf \<and>
           handed_over st' = handed_over st \<and>
           length (timer_tasks st') = Suc (length (timer_tasks st)) \<and>
           timer_tasks st' ! length (timer_tasks st) = Created \<and>
           group_message_timers st' group_id = Some (length (timer_tasks st)))) \<and>
   (h < length (timer_tasks st) \<and> timer_tasks st ! h = Sleeping \<and>
    group_message_buffers st group_id = Some pending \<longrightarrow>
      (\<exists>r. randint 2 GROUP_MESSAGE_BUFFER_THRESHOLD_RANDOM rho' = Inr r \<and>
           2 \<le> r \<and> r \<le> GROUP_MESSAGE_BUFFER_THRESHOLD_RANDOM \<and>
           start_group_message_timer group_id h rho' st =
             (if GROUP_MESSAGE_BUFFER_THRESHOLD_FIXED + r \<le> int (length pending)
              then st\<lparr>group_message_buffers := (group_message_buffers st)(group_id := None),
                      handed_over := handed_over st @ [(group_id, pending)],
                      group_message_timers := (group_message_timers st)(group_id := None),
                      timer_tasks := (timer_tasks st)[h := Finished]\<rparr>
              else st\<lparr>group_message_timers := (group_message_timers st)(group_id := None),
                      timer_tasks := (timer_tasks st)[h := Finished]\<rparr>))) \<and>
   (0 \<le> k \<and> k \<le> GROUP_MESSAGE_BUFFER_THRESHOLD_RANDOM \<longrightarrow>
      randint 0 GROUP_MESSAGE_BUFFER_THRESHOLD_RANDOM (nat k) = Inr k) \<and>
   (2 \<le> k' \<and> k' \<le> GROUP_MESSAGE_BUFFER_THRESHOLD_RANDOM \<longrightarrow>
      randint 2 GROUP_MESSAGE_BUFFER_THRESHOLD_RANDOM (nat (k' - 2)) = Inr k')"
proof (intro conjI)
  obtain r where r: "randint 0 GROUP_MESSAGE_BUFFER_THRESHOLD_RANDOM rho = Inr r"
      "0 \<le> r" "r \<le> GROUP_MESSAGE_BUFFER_THRESHOLD_RANDOM"
    using randint_range [of 0 GROUP_MESSAGE_BUFFER_THRESHOLD_RANDOM rho]
    by (auto simp: GROUP_MESSAGE_BUFFER_THRESHOLD_RANDOM_def)
  show "\<exists>r st'. randint 0 GROUP_MESSAGE_BUFFER_THRESHOLD_RANDOM rho = Inr r \<and>
        0 \<le> r \<and> r \<le> GROUP_MESSAGE_BUFFER_THRESHOLD_RANDOM \<and>
        handle_message_event_group group_id msg_event rho st = Inr st' \<and>
        (GROUP_MESSAGE_BUFFER_THRESHOLD_FIXED + r \<le> int (length buf) \<longrightarrow>
           group_message_buffers st' group_id = None \<and>
           handed_over st' = handed_over st @ [(group_id, buf)] \<and>
           length (timer_tasks st') = length (timer_tasks st) \<and>
           group_message_timers st' = group_message_timers st) \<and>
        (int (length buf) < GROUP_MESSAGE_BUFFER_THRESHOLD_FIXED + r \<longrightarrow>
           group_message_buffers st' group_id = Some buf \<and>
           handed_over st' = handed_over st \<and>
           length (timer_tasks st') = Suc (length (timer_tasks st)) \<and>
           timer_tasks st' ! length (timer_tasks st) = Created \<and>
           group_message_timers st' group_id = Some (length (timer_tasks st)))"
  proof (cases "GROUP_MESSAGE_BUFFER_THRESHOLD_FIXED + r \<le> int (length buf)")
    case True
    from offer_flush [OF assms r(1) True] obtain st' where
      "handle_message_event_group group_id msg_event rho st = Inr st'"
      "group_message_buffers st' group_id = None"
      "handed_over st' = handed_over st @ [(group_id, buf)]"
      "length (timer_tasks st') = length (timer_tasks st)"
      "group_message_timers st' = group_message_timers st"
      by blast
    with True r show ?thesis by (intro exI [of _ r] exI [of _ st']) simp
  next
    case False
    then have lt: "int (length buf) < GROUP_MESSAGE_BUFFER_THRESHOLD_FIXED + r" by simp
    from offer_timer [OF assms r(1) lt] obtain st' where
      "handle_message_event_group group_id msg_event rho st = Inr st'"
      "group_message_buffers st' group_id = Some buf"
      "handed_over st' = handed_over st"
      "length (timer_tasks st') = Suc (length (timer_tasks st))"
      "timer_tasks st' ! length (timer_tasks st) = Created"
      "group_message_timers st' group_id = Some (length (timer_tasks st))"
      by blast
    with False r show ?thesis by (intro exI [of _ r] exI [of _ st']) simp
  qed
next
  show "h < length (timer_tasks st) \<and> timer_tasks st ! h = Sleeping \<and>
    group_message_buffers st group_id = Some pending \<longrightarrow>
      (\<exists>r. randint 2 GROUP_MESSAGE_BUFFER_THRESHOLD_RANDOM rho' = Inr r \<and>
           2 \<le> r \<and> r \<le> GROUP_MESSAGE_BUFFER_THRESHOLD_RANDOM \<and>
           start_group_message_timer group_id h rho' st =
             (if GROUP_MESSAGE_BUFFER_THRESHOLD_FIXED + r \<le> int (length pending)
              then st\<lparr>group_message_buffers := (group_message_buffers st)(group_id := None),
                      handed_over := handed_over st @ [(group_id, pending)],
                      group_message_timers := (group_message_timers st)(group_id := None),
                      timer_tasks := (timer_tasks st)[h := Finished]\<rparr>
              else st\<lparr>group_message_timers := (group_message_timers st)(group_id := None),
                      timer_tasks := (timer_tasks st)[h := Finished]\<rparr>))"
  proof (rule impI)
    assume a: "h < length (timer_tasks st) \<and> timer_tasks st ! h = Sleeping \<and>
      group_message_buffers st group_id = Some pending"
    obtain r where r: "randint 2 GROUP_MESSAGE_BUFFER_THRESHOLD_RANDOM rho' = Inr r"
        "2 \<le> r" "r \<le> GROUP_MESSAGE_BUFFER_THRESHOLD_RANDOM"
      using randint_range [of 2 GROUP_MESSAGE_BUFFER_THRESHOLD_RANDOM rho']
      by (auto simp: GROUP_MESSAGE_BUFFER_THRESHOLD_RANDOM_def)
    have r0: "0 \<le> r" using r(2) by simp
    note s = expiry_step [OF a [THEN conjunct1] a [THEN conjunct2, THEN conjunct1]
        a [THEN conjunct2, THEN conjunct2] r(1) r0]
    show "\<exists>r. randint 2 GROUP_MESSAGE_BUFFER_THRESHOLD_RANDOM rho' = Inr r \<and>
           2 \<le> r \<and> r \<le> GROUP_MESSAGE_BUFFER_THRESHOLD_RANDOM \<and>
           start_group_message_timer group_id h rho' st =
             (if GROUP_MESSAGE_BUFFER_THRESHOLD_FIXED + r \<le> int (length pending)
              then st\<lparr>group_message_buffers := (group_message_buffers st)(group_id := None),
                      handed_over := handed_over st @ [(group_id, pending)],
                      group_message_timers := (group_message_timers st)(group_id := None),
                      timer_tasks := (timer_tasks st)[h := Finished]\<rparr>
              else st\<lparr>group_message_timers := (group_message_timers st)(group_id := None),
                      timer_tasks := (timer_tasks st)[h := Finished]\<rparr>)"
      by (rule exI [of _ r]) (intro conjI r s)
  qed
next
  show "0 \<le> k \<and> k \<le> GROUP_MESSAGE_BUFFER_THRESHOLD_RANDOM \<longrightarrow>
      randint 0 GROUP_MESSAGE_BUFFER_THRESHOLD_RANDOM (nat k) = Inr k"
    using randint_any [of 0 k GROUP_MESSAGE_BUFFER_THRESHOLD_RANDOM] by simp
next
  show "2 \<le> k' \<and> k' \<le> GROUP_MESSAGE_BUFFER_THRESHOLD_RANDOM \<longrightarrow>
      randint 2 GROUP_MESSAGE_BUFFER_THRESHOLD_RANDOM (nat (k' - 2)) = Inr k'"
    using randint_any [of 2 k' GROUP_MESSAGE_BUFFER_THRESHOLD_RANDOM] by simp
qed

theorem aggregator_thresholds_witness:
  "(\<exists>st'. handle_message_event_group (str ''777'') 5 0 four_buffered = Inr st' \<and>
          group_message_buffers st' (str ''777'') = None \<and>
          handed_over st' = [(str ''777'', [1, 2, 3, 4, 5])] \<and>
          length (timer_tasks st') = 0 \<and>
          group_message_timers st' = Map.empty) \<and>
   (\<exists>st'. handle_message_event_group (str ''777'') 5 1 four_buffered = Inr st' \<and>
          group_message_buffers st' (str ''777'') = Some [1, 2, 3, 4, 5] \<and>
          handed_over st' = [] \<and>
          length (timer_tasks st') = 1 \<and>
          timer_tasks st' ! 0 = Created \<and>
          group_message_timers st' (str ''777'') = Some 0) \<and>
   start_group_message_timer (str ''777'') 0 0 six_waiting =
     six_waiting\<lparr>group_message_timers := Map.empty, timer_tasks := [Finished]\<rparr> \<and>
   start_group_message_timer (str ''777'') 0 0 seven_waiting =
     seven_waiting\<lparr>group_message_buffers := Map.empty,
                   handed_over := [(str ''777'', [1, 2, 3, 4, 5, 6, 7])],
                   group_message_timers := Map.empty, timer_tasks := [Finished]\<rparr> \<and>
   randint 0 GROUP_MESSAGE_BUFFER_THRESHOLD_RANDOM 3 = Inr 3 \<and>
   randint 2 GROUP_MESSAGE_BUFFER_THRESHOLD_RANDOM 2 = Inr 4"
proof -
  have b: "[1, 2, 3, 4, 5] =
             (case group_message_buffers four_buffered (str ''777'') of
                None \<Rightarrow> [] | Some b \<Rightarrow> b) @ [5::nat]"
    by (simp add: four_buffered_def init_qqbot_def)
  have b6: "[1, 2, 3, 4, 5, 6, 7] =
             (case group_message_buffers six_waiting (str ''777'') of
                None \<Rightarrow> [] | Some b \<Rightarrow> b) @ [7::nat]"
    by (simp add: six_waiting_def init_qqbot_def)
  have b7: "[1, 2, 3, 4, 5, 6, 7, 8] =
             (case group_message_buffers seven_waiting (str ''777'') of
                None \<Rightarrow> [] | Some b \<Rightarrow> b) @ [8::nat]"
    by (simp add: seven_waiting_def init_qqbot_def)
  have r0: "randint 0 GROUP_MESSAGE_BUFFER_THRESHOLD_RANDOM 0 = Inr 0"
    by (simp add: randint_def GROUP_MESSAGE_BUFFER_THRESHOLD_RANDOM_def)
  have r1: "randint 0 GROUP_MESSAGE_BUFFER_THRESHOLD_RANDOM 1 = Inr 1"
    by (simp add: randint_def GROUP_MESSAGE_BUFFER_THRESHOLD_RANDOM_def)
  have r2: "randint 2 GROUP_MESSAGE_BUFFER_THRESHOLD_RANDOM 0 = Inr 2"
    by (simp add: randint_def GROUP_MESSAGE_BUFFER_THRESHOLD_RANDOM_def)
  have f: "handed_over four_buffered = []" "timer_tasks four_buffered = []"
      "group_message_timers four_buffered = Map.empty"
    by (simp_all add: four_buffered_def init_qqbot_def)
  from aggregator_thresholds [OF b, where rho = 0, THEN conjunct1]
  obtain r st' where x:
      "randint 0 GROUP_MESSAGE_BUFFER_THRESHOLD_RANDOM 0 = Inr r"
      "handle_message_event_group (str ''777'') 5 0 four_buffered = Inr st'"
      "GROUP_MESSAGE_BUFFER_THRESHOLD_FIXED + r \<le> int (length [1, 2, 3, 4, 5 :: nat]) \<longrightarrow>
         group_message_buffers st' (str ''777'') = None \<and>
         handed_over st' = handed_over four_buffered @ [(str ''777'', [1, 2, 3, 4, 5])] \<and>
         length (timer_tasks st') = length (timer_tasks four_buffered) \<and>
         group_message_timers st' = group_message_timers four_buffered"
    by (elim exE conjE)
  from x(1) r0 have "r = 0" by simp
  with x(3) have "group_message_buffers st' (str ''777'') = None \<and>
         handed_over st' = [(str ''777'', [1, 2, 3, 4, 5])] \<and>
         length (timer_tasks st') = 0 \<and>
         group_message_timers st' = Map.empty"
    by (simp add: f GROUP_MESSAGE_BUFFER_THRESHOLD_FIXED_def)
  with x(2) have first:
      "\<exists>st'. handle_message_event_group (str ''777'') 5 0 four_buffered = Inr st' \<and>
          group_message_buffers st' (str ''777'') = None \<and>
          handed_over st' = [(str ''777'', [1, 2, 3, 4, 5])] \<and>
          length (timer_tasks st') = 0 \<and>
          group_message_timers st' = Map.empty"
    by (intro exI [of _ st'] conjI) simp_all
  from aggregator_thresholds [OF b, where rho = 1, THEN conjunct1]
  obtain q st'' where y:
      "randint 0 GROUP_MESSAGE_BUFFER_THRESHOLD_RANDOM 1 = Inr q"
      "handle_message_event_group (str ''777'') 5 1 four_buffered = Inr st''"
      "int (length [1, 2, 3, 4, 5 :: nat]) < GROUP_MESSAGE_BUFFER_THRESHOLD_FIXED + q \<longrightarrow>
         group_message_buffers st'' (str ''777'') = Some [1, 2, 3, 4, 5] \<and>
         handed_over st'' = handed_over four_buffered \<and>
         length (timer_tasks st'') = Suc (length (timer_tasks four_buffered)) \<and>
         timer_tasks st'' ! length (timer_tasks four_buffered) = Created \<and>
         group_message_timers st'' (str ''777'') = Some (length (timer_tasks four_buffered))"
    by (elim exE conjE)
  from y(1) r1 have "q = 1" by simp
  with y(3) have "group_message_buffers st'' (str ''777'') = Some [1, 2, 3, 4, 5] \<and>
         handed_over st'' = [] \<and>
         length (timer_tasks st'') = 1 \<and>
         timer_tasks st'' ! 0 = Created \<and>
         group_message_timers st'' (str ''777'') = Some 0"
    by (simp add: f GROUP_MESSAGE_BUFFER_THRESHOLD_FIXED_def)
  with y(2) have second:
      "\<exists>st'. handle_message_event_group (str ''777'') 5 1 four_buffered = Inr st' \<and>
          group_message_buffers st' (str ''777'') = Some [1, 2, 3, 4, 5] \<and>
          handed_over st' = [] \<and>
          length (timer_tasks st') = 1 \<and>
          timer_tasks st' ! 0 = Created \<and>
          group_message_timers st' (str ''777'') = Some 0"
    by (intro exI [of _ st''] conjI) simp_all
  have g6: "0 < length (timer_tasks six_waiting) \<and> timer_tasks six_waiting ! 0 = Sleeping \<and>
           group_message_buffers six_waiting (str ''777'') = Some [1, 2, 3, 4, 5, 6]"
    by (simp add: six_waiting_def init_qqbot_def)
  from aggregator_thresholds [OF b6, where h = 0 and rho' = 0 and pending = "[1, 2, 3, 4, 5, 6]",
      THEN conjunct2, THEN conjunct1, THEN mp, OF g6]
  obtain u where z:
      "randint 2 GROUP_MESSAGE_BUFFER_THRESHOLD_RANDOM 0 = Inr u"
      "start_group_message_timer (str ''777'') 0 0 six_waiting =
         (if GROUP_MESSAGE_BUFFER_THRESHOLD_FIXED + u \<le> int (length [1, 2, 3, 4, 5, 6 :: nat])
          then six_waiting\<lparr>group_message_buffers :=
                            (group_message_buffers six_waiting)(str ''777'' := None),
                  handed_over := handed_over six_waiting @ [(str ''777'', [1, 2, 3, 4, 5, 6])],
                  group_message_timers := (group_message_timers six_waiting)(str ''777'' := None),
                  timer_tasks := (timer_tasks six_waiting)[0 := Finished]\<rparr>
          else six_waiting\<lparr>group_message_timers :=
                            (group_message_timers six_waiting)(str ''777'' := None),
                  timer_tasks := (timer_tasks six_waiting)[0 := Finished]\<rparr>)"
    by (elim exE conjE)
  from z(1) r2 have "u = 2" by simp
  with z(2) have third: "start_group_message_timer (str ''777'') 0 0 six_waiting =
     six_waiting\<lparr>group_message_timers := Map.empty, timer_tasks := [Finished]\<rparr>"
    by (simp add: six_waiting_def init_qqbot_def GROUP_MESSAGE_BUFFER_THRESHOLD_FIXED_def)
  have g7: "0 < length (timer_tasks seven_waiting) \<and> timer_tasks seven_waiting ! 0 = Sleeping \<and>
           group_message_buffers seven_waiting (str ''777'') = Some [1, 2, 3, 4, 5, 6, 7]"
    by (simp add: seven_waiting_def init_qqbot_def)
  from aggregator_thresholds [OF b7, where h = 0 and rho' = 0
        and pending = "[1, 2, 3, 4, 5, 6, 7]",
      THEN conjunct2, THEN conjunct1, THEN mp, OF g7]
  obtain v where w:
      "randint 2 GROUP_MESSAGE_BUFFER_THRESHOLD_RANDOM 0 = Inr v"
      "start_group_message_timer (str ''777'') 0 0 seven_waiting =
         (if GROUP_MESSAGE_BUFFER_THRESHOLD_FIXED + v
               \<le> int (length [1, 2, 3, 4, 5, 6, 7 :: nat])
          then seven_waiting\<lparr>group_message_buffers :=
                            (group_message_buffers seven_waiting)(str ''777'' := None),
                  handed_over :=
                    handed_over seven_waiting @ [(str ''777'', [1, 2, 3, 4, 5, 6, 7])],
                  group_message_timers :=
                    (group_message_timers seven_waiting)(str ''777'' := None),
                  timer_tasks := (timer_tasks seven_waiting)[0 := Finished]\<rparr>
          else seven_waiting\<lparr>group_message_timers :=
                            (group_message_timers seven_waiting)(str ''777'' := None),
                  timer_tasks := (timer_tasks seven_waiting)[0 := Finished]\<rparr>)"
    by (elim exE conjE)
  from w(1) r2 have "v = 2" by simp
  with w(2) have fourth: "start_group_message_timer (str ''777'') 0 0 seven_waiting =
     seven_waiting\<lparr>group_message_buffers := Map.empty,
                   handed_over := [(str ''777'', [1, 2, 3, 4, 5, 6, 7])],
                   group_message_timers := Map.empty, timer_tasks := [Finished]\<rparr>"
    by (simp add: seven_waiting_def init_qqbot_def GROUP_MESSAGE_BUFFER_THRESHOLD_FIXED_def)
  have k: "0 \<le> (3 :: int) \<and> 3 \<le> GROUP_MESSAGE_BUFFER_THRESHOLD_RANDOM"
      "2 \<le> (4 :: int) \<and> 4 \<le> GROUP_MESSAGE_BUFFER_THRESHOLD_RANDOM"
    by (simp_all add: GROUP_MESSAGE_BUFFER_THRESHOLD_RANDOM_def)
  from aggregator_thresholds [OF b, where k = 3,
      THEN conjunct2, THEN conjunct2, THEN conjunct1, THEN mp, OF k(1)]
  have fifth: "randint 0 GROUP_MESSAGE_BUFFER_THRESHOLD_RANDOM 3 = Inr 3" by simp
  from aggregator_thresholds [OF b, where k' = 4,
      THEN conjunct2, THEN conjunct2, THEN conjunct2, THEN mp, OF k(2)]
  have sixth: "randint 2 GROUP_MESSAGE_BUFFER_THRESHOLD_RANDOM 2 = Inr 4" by simp
  show ?thesis
    by (intro conjI first second third fourth fifth sixth)
qed

subsection \<open>Sending\<close>

lemma send_parts_keeps:
  "last_group_reply_time (send_parts env ep tg en i ms st) = last_group_reply_time st \<and>
   group_reply_buffers (send_parts env ep tg en i ms st) = group_reply_buffers st"
proof (induction ms arbitrary: i st)
  case Nil
  show ?case by simp
next
  case (Cons m ms)
  show ?case
    by (cases "http_post env \<lparr>post_endpoint = ep, post_target = tg, post_message = m\<rparr>")
       (simp_all add: Let_def Cons.IH)
qed

lemma send_parts_posted_length:
  "length (posted st) \<le> length (posted (send_parts env ep tg en i ms st))"
proof (induction ms arbitrary: i st)
  case Nil
  show ?case by simp
next
  case (Cons m ms)
  let ?p = "\<lparr>post_endpoint = ep, post_target = tg, post_message = m\<rparr>"
  have a: "length (posted st) \<le> length (posted (send_parts env ep tg en j ms (st\<lparr>posted := posted st @ [?p]\<rparr>)))" for j
    using Cons.IH [of "st\<lparr>posted := posted st @ [?p]\<rparr>" j] by simp
  have b: "length (posted st) \<le> length (posted (send_parts env ep tg en j ms (st\<lparr>posted := posted st @ [?p], history := history st @ [en]\<rparr>)))" for j
    using Cons.IH [of "st\<lparr>posted := posted st @ [?p], history := history st @ [en]\<rparr>" j] by simp
  show ?case
    by (cases "http_post env ?p") (simp_all add: Let_def a b)
qed

lemma send_parts_posts:
  "ms \<noteq> [] \<Longrightarrow> posted (send_parts env ep tg en i ms st) \<noteq> posted st"
proof -
  assume "ms \<noteq> []"
  then obtain m rest where ms: "ms = m # rest" by (meson neq_Nil_conv)
  let ?p = "\<lparr>post_endpoint = ep, post_target = tg, post_message = m\<rparr>"
  have a: "length (posted st) < length (posted (send_parts env ep tg en j rest (st\<lparr>posted := posted st @ [?p]\<rparr>)))" for j
    using send_parts_posted_length [of "st\<lparr>posted := posted st @ [?p]\<rparr>" env ep tg en j rest] by simp
  have b: "length (posted st) < length (posted (send_parts env ep tg en j rest (st\<lparr>posted := posted st @ [?p], history := history st @ [en]\<rparr>)))" for j
    using send_parts_posted_length [of "st\<lparr>posted := posted st @ [?p], history := history st @ [en]\<rparr>" env ep tg en j rest] by simp
  have "length (posted st) < length (posted (send_parts env ep tg en i ms st))"
    unfolding ms
    by (cases "http_post env ?p") (simp_all add: Let_def a b)
  then show ?thesis by auto
qed


lemma summarize_replies_single:
  "summarize_replies env u g rs =
     [if get_context env u g then
        (case call_gemini_api env (summary_prompt (join [0xA] rs)) summary_system_instruction of
           Inr f \<Rightarrow> f
         | Inl e \<Rightarrow> msg_summary_failed)
      else msg_summary_failed]"
  by (simp add: summarize_replies_def Let_def split: sum.splits)

lemma group_not_private: "str ''group'' \<noteq> str ''private''"
  by (simp add: str_def)

lemma demo_fields:
  "current_time (demo_env now api) = now"
  "py_int (demo_env now api) (str ''777'') = Some 777"
  "py_int (demo_env now api) (str ''42'') = Some 42"
  "get_context (demo_env now api) u g"
  "call_gemini_api (demo_env now api) = api"
  "http_post (demo_env now api) p = Post_ok"
  "add_message_to_history (demo_env now api) e"
  by (simp_all add: demo_env_def str_def)

lemma id_nonempty: "str ''777'' \<noteq> []" "str ''42'' \<noteq> []"
  by (simp_all add: str_def)

subsection \<open>Merging pending replies\<close>




subsection \<open>Buffering during the cooldown\<close>

text \<open>
  Claim C3, as the code has it. A send to a group (with a numeric id) inside the cooldown
  window changes nothing but the pending list of that group, to which the content is
  appended: nothing is posted and the last reply time stays. Whenever a send changes
  the last reply times at all, it has attempted a post. A private send (to a numeric user
  id) is under no cooldown: whatever the clock says, it attempts a post and leaves the
  last reply times and the pending lists as they were.
\<close>

theorem send_message_cooldown_buffers:
  "(gid \<noteq> [] \<and> py_int env gid = Some g \<and>
    current_time env - (case last_group_reply_time st gid of None \<Rightarrow> 0 | Some t \<Rightarrow> t)
      < GROUP_REPLY_COOLDOWN \<longrightarrow>
      send_message env user_id (Some gid) (str ''group'') content at_user_id st =
        Inr (st\<lparr>group_reply_buffers := (group_reply_buffers st)(gid \<mapsto>
                    (case group_reply_buffers st gid of None \<Rightarrow> [] | Some b \<Rightarrow> b)
                    @ [content])\<rparr>)) \<and>
   (send_message env user_id group_id message_type content at_user_id st = Inr st' \<and>
    last_group_reply_time st' \<noteq> last_group_reply_time st \<longrightarrow>
      posted st' \<noteq> posted st) \<and>
   (py_int env user_id = Some uid \<longrightarrow>
      (\<exists>st''. send_message env user_id group_id (str ''private'') content at_user_id st =
                Inr st'' \<and>
              posted st'' \<noteq> posted st \<and>
              last_group_reply_time st'' = last_group_reply_time st \<and>
              group_reply_buffers st'' = group_reply_buffers st))"
proof (intro conjI impI)
  assume "gid \<noteq> [] \<and> py_int env gid = Some g \<and>
    current_time env - (case last_group_reply_time st gid of None \<Rightarrow> 0 | Some t \<Rightarrow> t)
      < GROUP_REPLY_COOLDOWN"
  then show "send_message env user_id (Some gid) (str ''group'') content at_user_id st =
        Inr (st\<lparr>group_reply_buffers := (group_reply_buffers st)(gid \<mapsto>
                    (case group_reply_buffers st gid of None \<Rightarrow> [] | Some b \<Rightarrow> b)
                    @ [content])\<rparr>)"
    by (simp add: send_message_def group_not_private Let_def)
next
  assume h: "send_message env user_id group_id message_type content at_user_id st = Inr st' \<and>
    last_group_reply_time st' \<noteq> last_group_reply_time st"
  let ?entry = "\<lparr>h_user_id = user_id, h_message_type = message_type, h_content = content,
                 h_group_id = group_id\<rparr>"
  show "posted st' \<noteq> posted st"
  proof (cases "message_type = str ''private''")
    case True
    with h obtain uid ms where "st' = send_parts env (str ''/send_private_msg'') uid ?entry 0 ms st"
      by (auto simp: send_message_def Let_def simp del: send_parts.simps split: option.splits)
    then have "last_group_reply_time st' = last_group_reply_time st"
      using send_parts_keeps by blast
    with h show ?thesis by simp
  next
    case False
    show ?thesis
    proof (cases "message_type = str ''group'' \<and> group_id \<noteq> None \<and> group_id \<noteq> Some []")
      case no: False
      with False h have "st' = st"
        by (auto simp: send_message_def Let_def simp del: send_parts.simps
              split: option.splits if_splits)
      with h show ?thesis by simp
    next
      case True
      then obtain gid where g: "message_type = str ''group''" "group_id = Some gid" "gid \<noteq> []"
        by auto
      from h g obtain gn where gn: "py_int env gid = Some gn"
        by (cases "py_int env gid") (auto simp: send_message_def group_not_private Let_def)
      show ?thesis
      proof (cases "current_time env -
                      (case last_group_reply_time st gid of None \<Rightarrow> 0 | Some t \<Rightarrow> t)
                    < GROUP_REPLY_COOLDOWN")
        case cool: True
        with h g gn have "last_group_reply_time st' = last_group_reply_time st"
          by (auto simp: send_message_def group_not_private Let_def)
        with h show ?thesis by simp
      next
        case hot: False
        from h g gn hot obtain ms st1 where
          s: "st' = send_parts env (str ''/send_group_msg'') gn ?entry 0 ms st1"
          and ms: "ms \<noteq> []" and p: "posted st1 = posted st"
          by (auto simp: send_message_def group_not_private Let_def summarize_replies_single
                simp del: send_parts.simps split: option.splits list.splits)
        from send_parts_posts [OF ms] s p show ?thesis by metis
      qed
    qed
  qed
next
  assume p: "py_int env user_id = Some uid"
  let ?entry = "\<lparr>h_user_id = user_id, h_message_type = str ''private'', h_content = content,
                 h_group_id = group_id\<rparr>"
  let ?ms = "if MAX_MESSAGE_LENGTH_PRIVATE < length content
             then chunks MAX_MESSAGE_LENGTH_PRIVATE content else [content]"
  have ms: "?ms \<noteq> []"
  proof (cases "MAX_MESSAGE_LENGTH_PRIVATE < length content")
    case True
    then have "content \<noteq> []" by auto
    then have "chunks MAX_MESSAGE_LENGTH_PRIVATE content \<noteq> []"
      by (subst chunks.simps) (simp add: MAX_MESSAGE_LENGTH_PRIVATE_def)
    with True show ?thesis by simp
  next
    case False
    then show ?thesis by simp
  qed
  have e: "send_message env user_id group_id (str ''private'') content at_user_id st =
             Inr (send_parts env (str ''/send_private_msg'') uid ?entry 0 ?ms st)"
    using p by (simp add: send_message_def Let_def del: send_parts.simps)
  show "\<exists>st''. send_message env user_id group_id (str ''private'') content at_user_id st =
                Inr st'' \<and>
              posted st'' \<noteq> posted st \<and>
              last_group_reply_time st'' = last_group_reply_time st \<and>
              group_reply_buffers st'' = group_reply_buffers st"
    unfolding e using send_parts_posts [OF ms] send_parts_keeps by blast
qed

theorem send_message_cooldown_buffers_witness:
  "send_message (demo_env 105 api_answers) (str ''42'') (Some (str ''777'')) (str ''group'')
     (str ''b'') None cooled_group =
     Inr (cooled_group\<lparr>group_reply_buffers := [str ''777'' \<mapsto> [str ''a'', str ''b'']]\<rparr>) \<and>
   (\<exists>st'. send_message (demo_env 200 api_answers) (str ''42'') (Some (str ''777''))
            (str ''group'') (str ''b'') None (init_qqbot :: nat qqbot) = Inr st' \<and>
          last_group_reply_time st' \<noteq> last_group_reply_time (init_qqbot :: nat qqbot) \<and>
          posted st' \<noteq> posted (init_qqbot :: nat qqbot)) \<and>
   (\<exists>st'. send_message (demo_env 105 api_answers) (str ''42'') None (str ''private'')
            (str ''hi'') None cooled_group = Inr st' \<and>
          posted st' \<noteq> posted cooled_group \<and>
          last_group_reply_time st' = last_group_reply_time cooled_group \<and>
          group_reply_buffers st' = group_reply_buffers cooled_group)"
proof -
  have h: "str ''777'' \<noteq> [] \<and> py_int (demo_env 105 api_answers) (str ''777'') = Some 777 \<and>
           current_time (demo_env 105 api_answers) -
             (case last_group_reply_time cooled_group (str ''777'') of
                None \<Rightarrow> 0 | Some t \<Rightarrow> t)
           < GROUP_REPLY_COOLDOWN"
    by (simp add: id_nonempty demo_fields cooled_group_def init_qqbot_def GROUP_REPLY_COOLDOWN_def)
  note t = send_message_cooldown_buffers [of "str ''777''" "demo_env 105 api_answers" 777
      cooled_group "str ''42''" "str ''b''" None]
  from t [THEN conjunct1, THEN mp, OF h]
  have first: "send_message (demo_env 105 api_answers) (str ''42'') (Some (str ''777''))
     (str ''group'') (str ''b'') None cooled_group =
     Inr (cooled_group\<lparr>group_reply_buffers := [str ''777'' \<mapsto> [str ''a'', str ''b'']]\<rparr>)"
    by (simp add: cooled_group_def init_qqbot_def)
  obtain st' where e: "send_message (demo_env 200 api_answers) (str ''42'') (Some (str ''777''))
            (str ''group'') (str ''b'') None (init_qqbot :: nat qqbot) = Inr st'"
      and l: "last_group_reply_time st' = [str ''777'' \<mapsto> 200]"
    by (simp add: send_message_def group_not_private id_nonempty demo_fields init_qqbot_def
          GROUP_REPLY_COOLDOWN_def Let_def send_parts_keeps del: send_parts.simps)
  have ne: "last_group_reply_time st' \<noteq> last_group_reply_time (init_qqbot :: nat qqbot)"
    unfolding l by (simp add: init_qqbot_def)
  note u = send_message_cooldown_buffers [of "str ''777''" "demo_env 200 api_answers" 777
      "init_qqbot :: nat qqbot" "str ''42''" "str ''b''" None "Some (str ''777'')" "str ''group''" st']
  from u [THEN conjunct2, THEN conjunct1, THEN mp, OF conjI [OF e ne]]
  have pn: "posted st' \<noteq> posted (init_qqbot :: nat qqbot)" .
  note v = send_message_cooldown_buffers [of "str ''777''" "demo_env 105 api_answers" 777
      cooled_group "str ''42''" "str ''hi''" None None "str ''private''" cooled_group 42]
  from v [THEN conjunct2, THEN conjunct2, THEN mp, OF demo_fields(3)]
  have third: "\<exists>st'. send_message (demo_env 105 api_answers) (str ''42'') None (str ''private'')
            (str ''hi'') None cooled_group = Inr st' \<and>
          posted st' \<noteq> posted cooled_group \<and>
          last_group_reply_time st' = last_group_reply_time cooled_group \<and>
          group_reply_buffers st' = group_reply_buffers cooled_group" .
  have second: "\<exists>st'. send_message (demo_env 200 api_answers) (str ''42'') (Some (str ''777''))
            (str ''group'') (str ''b'') None (init_qqbot :: nat qqbot) = Inr st' \<and>
          last_group_reply_time st' \<noteq> last_group_reply_time (init_qqbot :: nat qqbot) \<and>
          posted st' \<noteq> posted (init_qqbot :: nat qqbot)"
    using e ne pn by blast
  from first second third show ?thesis by (intro conjI)
qed

text \<open>
  Two private sends to user 42, at clock readings 5 and 6: both are posted and nothing is
  held back, although the second comes one second after the first transmission (and
  although no last reply time is on record, which the code reads as 0).
\<close>

theorem send_message_private_counterexample:
  "(case send_message (demo_env 5 api_answers) (str ''42'') None (str ''private'') (str ''a'')
           None (init_qqbot :: nat qqbot) of
      Inl e \<Rightarrow> False
    | Inr st1 \<Rightarrow>
        map post_message (posted st1) = [str ''a''] \<and>
        (case send_message (demo_env 6 api_answers) (str ''42'') None (str ''private'')
                (str ''b'') None st1 of
           Inl e \<Rightarrow> False
         | Inr st2 \<Rightarrow>
             map post_message (posted st2) = [str ''a'', str ''b''] \<and>
             group_reply_buffers st2 (str ''42'') = None)) \<and>
   (6 :: real) - 5 < GROUP_REPLY_COOLDOWN \<and> (6 :: real) - 0 < GROUP_REPLY_COOLDOWN"
  by (simp add: send_message_def demo_fields init_qqbot_def GROUP_REPLY_COOLDOWN_def
        MAX_MESSAGE_LENGTH_PRIVATE_def Let_def)
     (simp add: str_def)

end
